theory Spec2Isabelle
  imports Complex_Main
begin

section \<open>Configuration (config.py)\<close>

text \<open>
  Python numbers are modelled as exact reals: the integer and floating-point values of the
  source are read as the real numbers they denote, and floating-point rounding is not
  modelled. Strings are character lists.
\<close>

definition AQI_CATEGORIES :: "(real \<times> real \<times> string \<times> string) list" where
  "AQI_CATEGORIES =
     [(0, 50, ''Good'', ''#00e400''),
      (51, 100, ''Moderate'', ''#ffff00''),
      (101, 150, ''Unhealthy for Sensitive Groups'', ''#ff7e00''),
      (151, 200, ''Unhealthy'', ''#ff0000''),
      (201, 300, ''Very Unhealthy'', ''#8f3f97''),
      (301, 500, ''Hazardous'', ''#7e0023'')]"

definition DEFAULT_PREDICTION_DAYS :: int where
  "DEFAULT_PREDICTION_DAYS = 7"

definition PREDICTION_GROWTH_RATE :: real where
  "PREDICTION_GROWTH_RATE = 4 / 100"

section \<open>Categorisation (aqi_utils.py)\<close>

text \<open>
  \<^verbatim>\<open>get_aqi_category\<close> scans the table in order and returns the label and colour of the
  first band with \<^verbatim>\<open>low <= aqi <= high\<close>; when the loop runs out it returns
  \<^verbatim>\<open>("Unknown", "gray")\<close>. The loop is the recursion \<open>scan_categories\<close> over the table.
\<close>

fun scan_categories :: "(real \<times> real \<times> string \<times> string) list \<Rightarrow> real \<Rightarrow> string \<times> string" where
  "scan_categories [] aqi = (''Unknown'', ''gray'')"
| "scan_categories ((low, high, label, color) # rest) aqi =
     (if low \<le> aqi \<and> aqi \<le> high then (label, color) else scan_categories rest aqi)"

definition get_aqi_category :: "real \<Rightarrow> string \<times> string" where
  "get_aqi_category aqi = scan_categories AQI_CATEGORIES aqi"

definition get_aqi_color :: "real \<Rightarrow> string" where
  "get_aqi_color aqi = snd (get_aqi_category aqi)"

definition get_aqi_label :: "real \<Rightarrow> string" where
  "get_aqi_label aqi = fst (get_aqi_category aqi)"

text \<open>
  \<^verbatim>\<open>validate_aqi\<close> hands its argument to \<^verbatim>\<open>float()\<close>: a value that converts is a number
  \<open>Num v\<close>, and the range test decides; a value that \<^verbatim>\<open>float()\<close> refuses takes the
  \<^verbatim>\<open>except\<close> branch, which returns \<^verbatim>\<open>False\<close>.
\<close>

datatype pyval = Num real | NonNumeric

definition validate_aqi :: "pyval \<Rightarrow> bool" where
  "validate_aqi aqi =
     (case aqi of
        Num aqi_val \<Rightarrow> 0 \<le> aqi_val \<and> aqi_val \<le> 500
      | NonNumeric \<Rightarrow> False)"

section \<open>Prediction (predictor.py)\<close>

text \<open>
  A raised Python exception is a value \<open>Exception msg\<close>, and \<open>str\<close> reads its message as
  \<^verbatim>\<open>str(e)\<close> does. A function that may raise returns \<open>exn + 'a\<close>, with \<open>Inl\<close> for the
  exception.
\<close>

datatype exn = Exception string

fun str :: "exn \<Rightarrow> string" where
  "str (Exception msg) = msg"

text \<open>\<^verbatim>\<open>range(n)\<close>: the integers from 0 up to \<open>n - 1\<close>, empty when \<open>n \<le> 0\<close>.\<close>

definition range_py :: "int \<Rightarrow> int list" where
  "range_py n = [0..n - 1]"

subsection \<open>The library's linear regression, in exact arithmetic\<close>

text \<open>
  \<^verbatim>\<open>LinearRegression().fit(X, y)\<close> on one feature: it refuses an empty sample with a
  ValueError; otherwise it centres \<open>X\<close> and \<open>y\<close> on their means, solves the least-squares
  problem on the centred data (the minimum-norm solution, so the coefficient is 0 when
  every centred feature is 0) and sets the intercept to \<open>mean y - mean X * coef\<close>.
  \<^verbatim>\<open>predict(X)\<close> evaluates \<open>x * coef + intercept\<close> at every feature.
  The fitted parameters are overwritten by every call of \<^verbatim>\<open>fit\<close>, and \<^verbatim>\<open>predict_aqi\<close>
  fits before it predicts, so the fitted model is a value local to one call.
\<close>

record linreg =
  coef :: real
  intercept :: real

definition mean :: "real list \<Rightarrow> real" where
  "mean xs = sum_list xs / real (length xs)"

definition fit :: "real list \<Rightarrow> real list \<Rightarrow> exn + linreg" where
  "fit X y =
     (if X = [] then
        Inl (Exception ''Found array with 0 sample(s) while a minimum of 1 is required by LinearRegression.'')
      else
        let X_offset = mean X;
            y_offset = mean y;
            Xc = map (\<lambda>x. x - X_offset) X;
            yc = map (\<lambda>v. v - y_offset) y;
            sxx = sum_list (map (\<lambda>x. x * x) Xc);
            sxy = sum_list (map2 (\<lambda>x v. x * v) Xc yc);
            w = (if sxx = 0 then 0 else sxy / sxx)
        in Inr \<lparr>coef = w, intercept = y_offset - X_offset * w\<rparr>)"

definition predict :: "linreg \<Rightarrow> real list \<Rightarrow> real list" where
  "predict m X = map (\<lambda>x. x * coef m + intercept m) X"

text \<open>\<^verbatim>\<open>np.clip(a, lo, hi)\<close> is \<^verbatim>\<open>minimum(hi, maximum(a, lo))\<close> on every element.\<close>

definition clip :: "real list \<Rightarrow> real \<Rightarrow> real \<Rightarrow> real list" where
  "clip a lo hi = map (\<lambda>v. min hi (max v lo)) a"

subsection \<open>AQIPredictor\<close>

record AQIPredictor =
  growth_rate :: real

text \<open>
  \<^verbatim>\<open>self.growth_rate = growth_rate or PREDICTION_GROWTH_RATE\<close>: the argument is replaced
  by the configured rate when it is \<^verbatim>\<open>None\<close> and also when it is falsy, that is 0.
\<close>

definition AQIPredictor_init :: "real option \<Rightarrow> AQIPredictor" where
  "AQIPredictor_init growth_rate_arg =
     \<lparr>growth_rate =
        (case growth_rate_arg of
           None \<Rightarrow> PREDICTION_GROWTH_RATE
         | Some g \<Rightarrow> if g = 0 then PREDICTION_GROWTH_RATE else g)\<rparr>"

definition predict_aqi :: "AQIPredictor \<Rightarrow> real \<Rightarrow> int option \<Rightarrow> exn + real list" where
  "predict_aqi self current_aqi days_arg =
     (let days = (case days_arg of None \<Rightarrow> DEFAULT_PREDICTION_DAYS | Some d \<Rightarrow> d);
          X = map (\<lambda>i. real_of_int (i + 1)) (range_py days);
          y = map (\<lambda>i. current_aqi * (1 + growth_rate self * real_of_int i)) (range_py days)
      in case fit X y of
           Inl e \<Rightarrow> Inl e
         | Inr model \<Rightarrow> Inr (clip (predict model X) 0 500))"

text \<open>
  The training signal \<^verbatim>\<open>y\<close> of \<^verbatim>\<open>predict_aqi\<close> on its own: the affine formula at
  every \<open>i\<close> of \<^verbatim>\<open>range(days)\<close>, that is from 0 to \<open>days - 1\<close>.
\<close>

definition training_signal :: "real \<Rightarrow> real \<Rightarrow> int \<Rightarrow> real list" where
  "training_signal current_aqi g days =
     map (\<lambda>i. current_aqi * (1 + g * real_of_int i)) (range_py days)"

text \<open>
  The direct evaluation as the specification words it, for comparison with the code: the
  same formula at every \<open>i\<close> from 1 to \<open>days\<close>.
\<close>

definition spec_affine_series :: "real \<Rightarrow> real \<Rightarrow> int \<Rightarrow> real list" where
  "spec_affine_series current g days =
     map (\<lambda>i. current * (1 + g * real_of_int i)) [1..days]"

text \<open>\<^verbatim>\<open>np.min\<close>, \<^verbatim>\<open>np.max\<close> and \<^verbatim>\<open>np.mean\<close> of a non-empty array.\<close>

definition np_min :: "real list \<Rightarrow> real" where
  "np_min xs = foldl min (hd xs) (tl xs)"

definition np_max :: "real list \<Rightarrow> real" where
  "np_max xs = foldl max (hd xs) (tl xs)"

record prediction_summary =
  predictions :: "real list"
  min_predicted :: real
  max_predicted :: real
  avg_predicted :: real
  trend :: string

text \<open>
  The reductions raise on an empty array; \<^verbatim>\<open>predict_aqi\<close> never returns one (the fit has
  refused it before), and the branch is kept so that no reduction is read on \<open>[]\<close>.
\<close>

definition get_prediction_summary :: "AQIPredictor \<Rightarrow> real \<Rightarrow> int option \<Rightarrow> exn + prediction_summary" where
  "get_prediction_summary self current_aqi days_arg =
     (case predict_aqi self current_aqi days_arg of
        Inl e \<Rightarrow> Inl e
      | Inr ps \<Rightarrow>
          if ps = [] then Inl (Exception ''zero-size array to reduction operation minimum which has no identity'')
          else Inr \<lparr>predictions = ps,
                    min_predicted = np_min ps,
                    max_predicted = np_max ps,
                    avg_predicted = mean ps,
                    trend = (if last ps > hd ps then ''increasing'' else ''decreasing'')\<rparr>)"

subsection \<open>The projection on float64 values\<close>

text \<open>
  The definitions above read every number as an exact real, which is what the code
  computes, up to rounding, at the magnitudes of an air quality index. The numbers of the
  code are float64 values, and out of their range the projection behaves differently: a
  result too large is an infinity, an undefined one is a NaN, and the libraries refuse
  data that are not finite. The projection is therefore given a second time, on values
  \<open>f64\<close> that carry the range: \<open>fl r\<close> is the float64 result of an operation whose exact
  result is \<open>r\<close>. The rounding of the results is not modelled, so the statements made on
  this model read no exact value of a rounded result and stay away from the edge of the
  range.
\<close>

datatype f64 = Fin real | PInf | NInf | NaN

definition max_float :: real where
  "max_float = (2 - 1 / 2 ^ 52) * 2 ^ 1023"

definition fl :: "real \<Rightarrow> f64" where
  "fl r = (if max_float < r then PInf else if r < - max_float then NInf else Fin r)"

text \<open>
  Negation, addition, subtraction and multiplication with the infinities and NaN of
  IEEE arithmetic; the sum of an array (a mean is its sum divided by its length).
\<close>

fun neg64 :: "f64 \<Rightarrow> f64" where
  "neg64 (Fin a) = Fin (- a)"
| "neg64 PInf = NInf"
| "neg64 NInf = PInf"
| "neg64 NaN = NaN"

fun add64 :: "f64 \<Rightarrow> f64 \<Rightarrow> f64" where
  "add64 (Fin a) (Fin b) = fl (a + b)"
| "add64 NaN y = NaN"
| "add64 x NaN = NaN"
| "add64 PInf NInf = NaN"
| "add64 NInf PInf = NaN"
| "add64 PInf y = PInf"
| "add64 x PInf = PInf"
| "add64 NInf y = NInf"
| "add64 x NInf = NInf"

definition sub64 :: "f64 \<Rightarrow> f64 \<Rightarrow> f64" where
  "sub64 x y = add64 x (neg64 y)"

fun mul64 :: "f64 \<Rightarrow> f64 \<Rightarrow> f64" where
  "mul64 (Fin a) (Fin b) = fl (a * b)"
| "mul64 NaN y = NaN"
| "mul64 x NaN = NaN"
| "mul64 (Fin a) PInf = (if a = 0 then NaN else if 0 < a then PInf else NInf)"
| "mul64 (Fin a) NInf = (if a = 0 then NaN else if 0 < a then NInf else PInf)"
| "mul64 PInf (Fin b) = (if b = 0 then NaN else if 0 < b then PInf else NInf)"
| "mul64 NInf (Fin b) = (if b = 0 then NaN else if 0 < b then NInf else PInf)"
| "mul64 PInf PInf = PInf"
| "mul64 NInf NInf = PInf"
| "mul64 PInf NInf = NInf"
| "mul64 NInf PInf = NInf"

fun div_count :: "f64 \<Rightarrow> nat \<Rightarrow> f64" where
  "div_count (Fin s) n = Fin (s / real n)"
| "div_count x n = x"

text \<open>The values of an array when all are finite, \<open>None\<close> when one is an infinity or NaN.\<close>

fun finite_values :: "f64 list \<Rightarrow> real list option" where
  "finite_values [] = Some []"
| "finite_values (Fin r # vs) = (case finite_values vs of None \<Rightarrow> None | Some rs \<Rightarrow> Some (r # rs))"
| "finite_values (v # vs) = None"

text \<open>
  One element of the training signal, \<^verbatim>\<open>current_aqi * (1 + self.growth_rate * i)\<close>, with a
  float growth rate. The factor is computed in floats and never raises. The current value
  is a Python number: one beyond the float64 range can only be an integer, and its product
  with a float raises OverflowError; any other is used as the float it converts to. The
  list comprehension stops at the first element that raises.
\<close>

definition to_float :: "real \<Rightarrow> exn + f64" where
  "to_float v = (if max_float < \<bar>v\<bar> then Inl (Exception ''int too large to convert to float'') else Inr (Fin v))"

definition y_elem :: "real \<Rightarrow> real \<Rightarrow> int \<Rightarrow> exn + f64" where
  "y_elem current_aqi g i =
     (case to_float current_aqi of
        Inl e \<Rightarrow> Inl e
      | Inr c \<Rightarrow> Inr (mul64 c (add64 (Fin 1) (mul64 (Fin g) (Fin (real_of_int i))))))"

fun y_list :: "real \<Rightarrow> real \<Rightarrow> int list \<Rightarrow> exn + f64 list" where
  "y_list current_aqi g [] = Inr []"
| "y_list current_aqi g (i # rest) =
     (case y_elem current_aqi g i of
        Inl e \<Rightarrow> Inl e
      | Inr v \<Rightarrow> (case y_list current_aqi g rest of Inl e \<Rightarrow> Inl e | Inr vs \<Rightarrow> Inr (v # vs)))"

text \<open>
  \<^verbatim>\<open>LinearRegression().fit(X, y)\<close> on float64 data: it refuses an empty sample and a
  signal that is not finite; it centres the data on their means, the mean of the signal
  being the float64 sum over the length (the sum is taken from left to right, as numpy
  does for fewer than 8 elements; for a signal of one sign every order of summation
  overflows exactly when the total does); the least-squares
  solver refuses centred data that are not finite, and otherwise returns the solution of
  exact arithmetic brought into the range; the intercept is computed in floats. The
  features are the small integers 1 to \<open>days\<close> and stay exact.
\<close>

record linreg64 =
  coef64 :: f64
  intercept64 :: f64

definition sum64 :: "f64 list \<Rightarrow> f64" where
  "sum64 vs = foldl add64 (Fin 0) vs"

definition fit_f64 :: "real list \<Rightarrow> f64 list \<Rightarrow> exn + linreg64" where
  "fit_f64 X y =
     (if X = [] then
        Inl (Exception ''Found array with 0 sample(s) (shape=(0, 1)) while a minimum of 1 is required by LinearRegression.'')
      else
        case finite_values y of
          None \<Rightarrow> Inl (Exception ''Input y contains NaN or infinity.'')
        | Some y_values \<Rightarrow>
            let X_offset = mean X;
                y_offset = div_count (sum64 y) (length y);
                Xc = map (\<lambda>x. x - X_offset) X
            in case finite_values (map (\<lambda>v. sub64 v y_offset) y) of
                 None \<Rightarrow> Inl (Exception ''array must not contain infs or NaNs'')
               | Some yc \<Rightarrow>
                   let sxx = sum_list (map (\<lambda>x. x * x) Xc);
                       sxy = sum_list (map2 (\<lambda>x v. x * v) Xc yc);
                       w = fl (if sxx = 0 then 0 else sxy / sxx)
                   in Inr \<lparr>coef64 = w, intercept64 = sub64 y_offset (mul64 (Fin X_offset) w)\<rparr>)"

definition predict_f64 :: "linreg64 \<Rightarrow> real list \<Rightarrow> f64 list" where
  "predict_f64 m X = map (\<lambda>x. add64 (mul64 (Fin x) (coef64 m)) (intercept64 m)) X"

text \<open>\<^verbatim>\<open>np.clip\<close> on a float64 value: an infinity goes to the bound, a NaN stays.\<close>

fun clip64 :: "f64 \<Rightarrow> real \<Rightarrow> real \<Rightarrow> f64" where
  "clip64 (Fin r) lo hi = Fin (min hi (max r lo))"
| "clip64 PInf lo hi = Fin hi"
| "clip64 NInf lo hi = Fin (min hi lo)"
| "clip64 NaN lo hi = NaN"

text \<open>
  The predictor object with the regression model it holds: \<^verbatim>\<open>fit\<close> stores the fitted
  coefficients in it and \<^verbatim>\<open>predict\<close> reads them, so the projection takes the predictor and
  returns it with the model of this call. A call that raises leaves the model as it was.
\<close>

record AQIPredictor_fitted = AQIPredictor +
  model :: "linreg64 option"

definition predict_aqi_f64 ::
  "AQIPredictor_fitted \<Rightarrow> real \<Rightarrow> int option \<Rightarrow> (exn + f64 list) \<times> AQIPredictor_fitted" where
  "predict_aqi_f64 self current_aqi days_arg =
     (let days = (case days_arg of None \<Rightarrow> DEFAULT_PREDICTION_DAYS | Some d \<Rightarrow> d);
          X = map (\<lambda>i. real_of_int (i + 1)) (range_py days)
      in case y_list current_aqi (growth_rate self) (range_py days) of
           Inl e \<Rightarrow> (Inl e, self)
         | Inr y \<Rightarrow>
             (case fit_f64 X y of
                Inl e \<Rightarrow> (Inl e, self)
              | Inr m \<Rightarrow> (Inr (map (\<lambda>v. clip64 v 0 500) (predict_f64 m X)), self\<lparr>model := Some m\<rparr>)))"

section \<open>The application (aqi_app.py)\<close>

text \<open>
  \<^verbatim>\<open>str.capitalize()\<close> on ASCII text: the first character in upper case, the others in
  lower case; characters that are not ASCII letters are kept.
\<close>

definition ascii_lowercase :: string where
  "ascii_lowercase = ''abcdefghijklmnopqrstuvwxyz''"

definition ascii_uppercase :: string where
  "ascii_uppercase = ''ABCDEFGHIJKLMNOPQRSTUVWXYZ''"

definition upper_char :: "char \<Rightarrow> char" where
  "upper_char c = (case map_of (zip ascii_lowercase ascii_uppercase) c of Some u \<Rightarrow> u | None \<Rightarrow> c)"

definition lower_char :: "char \<Rightarrow> char" where
  "lower_char c = (case map_of (zip ascii_uppercase ascii_lowercase) c of Some l \<Rightarrow> l | None \<Rightarrow> c)"

fun capitalize :: "string \<Rightarrow> string" where
  "capitalize [] = []"
| "capitalize (c # cs) = upper_char c # map lower_char cs"

text \<open>
  The result dictionary of \<^verbatim>\<open>get_city_aqi_info\<close>: its \<^verbatim>\<open>'status'\<close> entry is the
  constructor. \<open>Success\<close> carries city, current_aqi, category, color, predictions and
  prediction_summary; \<open>Error\<close> carries city and error.
\<close>

datatype city_info =
    Success string real string string "real list" prediction_summary
  | Error string string

fun status :: "city_info \<Rightarrow> string" where
  "status (Success city current_aqi category color preds psummary) = ''success''"
| "status (Error city err) = ''error''"

text \<open>
  The fetch capability \<^verbatim>\<open>self.data_fetcher.fetch_aqi\<close> talks to the outside world: it takes
  the city and the state of the world \<open>'w\<close> and returns the value or the raised exception,
  and the next state of the world. The application object holds it with its predictor.
\<close>

record 'w AQIApp =
  fetch_aqi :: "string \<Rightarrow> 'w \<Rightarrow> (exn + real) \<times> 'w"
  predictor :: AQIPredictor

definition AQIApp_init :: "(string \<Rightarrow> 'w \<Rightarrow> (exn + real) \<times> 'w) \<Rightarrow> 'w AQIApp" where
  "AQIApp_init fetcher = \<lparr>fetch_aqi = fetcher, predictor = AQIPredictor_init None\<rparr>"

text \<open>
  The body of the \<^verbatim>\<open>try\<close> block once the fetch has answered: any exception of the fetch,
  of the prediction or of the summary leaves the block as \<open>Inl\<close>.
\<close>

definition city_info_try :: "AQIPredictor \<Rightarrow> string \<Rightarrow> exn + real \<Rightarrow> exn + city_info" where
  "city_info_try pr city fetched =
     (case fetched of
        Inl e \<Rightarrow> Inl e
      | Inr current_aqi \<Rightarrow>
          (case get_aqi_category current_aqi of
             (category, color) \<Rightarrow>
               (case predict_aqi pr current_aqi None of
                  Inl e \<Rightarrow> Inl e
                | Inr preds \<Rightarrow>
                    (case get_prediction_summary pr current_aqi None of
                       Inl e \<Rightarrow> Inl e
                     | Inr psummary \<Rightarrow>
                         Inr (Success (capitalize city) current_aqi category color preds psummary)))))"

text \<open>\<^verbatim>\<open>except Exception as e\<close>: the handler builds the error dictionary from \<^verbatim>\<open>str(e)\<close>.\<close>

definition get_city_aqi_info :: "'w AQIApp \<Rightarrow> string \<Rightarrow> 'w \<Rightarrow> city_info \<times> 'w" where
  "get_city_aqi_info self city w =
     (case fetch_aqi self city w of
        (fetched, w') \<Rightarrow>
          (case city_info_try (predictor self) city fetched of
             Inr info \<Rightarrow> (info, w')
           | Inl e \<Rightarrow> (Error (capitalize city) (str e), w')))"

subsection \<open>The report over several cities\<close>

text \<open>
  \<^verbatim>\<open>d[k] = v\<close> on an insertion-ordered dictionary: an existing key keeps its place and
  takes the new value, a new key goes to the end.
\<close>

fun dict_set :: "('k \<times> 'v) list \<Rightarrow> 'k \<Rightarrow> 'v \<Rightarrow> ('k \<times> 'v) list" where
  "dict_set [] k v = [(k, v)]"
| "dict_set ((k', v') # d) k v = (if k' = k then (k, v) # d else (k', v') # dict_set d k v)"

text \<open>
  \<^verbatim>\<open>max(xs, key=f)\<close> and \<^verbatim>\<open>min(xs, key=f)\<close> on a non-empty list: one pass that keeps
  the best item so far and replaces it only by an item whose key is strictly greater
  (strictly less).
\<close>

fun max_from :: "('a \<Rightarrow> real) \<Rightarrow> 'a \<Rightarrow> 'a list \<Rightarrow> 'a" where
  "max_from key best [] = best"
| "max_from key best (x # xs) = max_from key (if key x > key best then x else best) xs"

fun min_from :: "('a \<Rightarrow> real) \<Rightarrow> 'a \<Rightarrow> 'a list \<Rightarrow> 'a" where
  "min_from key best [] = best"
| "min_from key best (x # xs) = min_from key (if key x < key best then x else best) xs"

definition max_py :: "('a \<Rightarrow> real) \<Rightarrow> 'a list \<Rightarrow> 'a" where
  "max_py key xs = max_from key (hd xs) (tl xs)"

definition min_py :: "('a \<Rightarrow> real) \<Rightarrow> 'a list \<Rightarrow> 'a" where
  "min_py key xs = min_from key (hd xs) (tl xs)"

record report_summary =
  total_cities :: nat
  successful_fetches :: nat
  failed_fetches :: nat
  average_aqi :: real
  highest_aqi_city :: "(string \<times> real) option"
  lowest_aqi_city :: "(string \<times> real) option"

record report =
  cities :: "(string \<times> city_info) list"
  summary :: report_summary

text \<open>
  The \<^verbatim>\<open>for city in cities\<close> loop, on the report under construction, the list
  \<^verbatim>\<open>valid_aqis\<close> and the world.
\<close>

fun cities_loop ::
  "'w AQIApp \<Rightarrow> string list \<Rightarrow> report \<times> (string \<times> real) list \<times> 'w \<Rightarrow> report \<times> (string \<times> real) list \<times> 'w" where
  "cities_loop self [] st = st"
| "cities_loop self (city # rest) (rep, valid_aqis, w) =
     (case get_city_aqi_info self city w of
        (info, w') \<Rightarrow>
          (let rep1 = rep\<lparr>cities := dict_set (cities rep) city info\<rparr>
           in case info of
                Success c aqi category color preds psummary \<Rightarrow>
                  cities_loop self rest
                    (rep1\<lparr>summary := (summary rep1)\<lparr>successful_fetches := successful_fetches (summary rep1) + 1\<rparr>\<rparr>,
                     valid_aqis @ [(city, aqi)], w')
              | Error c err \<Rightarrow>
                  cities_loop self rest
                    (rep1\<lparr>summary := (summary rep1)\<lparr>failed_fetches := failed_fetches (summary rep1) + 1\<rparr>\<rparr>,
                     valid_aqis, w')))"

definition get_multiple_cities_report :: "'w AQIApp \<Rightarrow> string list \<Rightarrow> 'w \<Rightarrow> report \<times> 'w" where
  "get_multiple_cities_report self cs w =
     (let rep0 = \<lparr>cities = [],
                  summary = \<lparr>total_cities = length cs, successful_fetches = 0, failed_fetches = 0,
                             average_aqi = 0, highest_aqi_city = None, lowest_aqi_city = None\<rparr>\<rparr>
      in case cities_loop self cs (rep0, [], w) of
           (rep, valid_aqis, w') \<Rightarrow>
             if valid_aqis \<noteq> [] then
               (let aqi_values = map snd valid_aqis;
                    highest = max_py snd valid_aqis;
                    lowest = min_py snd valid_aqis
                in (rep\<lparr>summary := (summary rep)
                          \<lparr>average_aqi := sum_list aqi_values / real (length aqi_values),
                           highest_aqi_city := Some (fst highest, snd highest),
                           lowest_aqi_city := Some (fst lowest, snd lowest)\<rparr>\<rparr>, w'))
             else (rep, w'))"

subsection \<open>What the report is compared with\<close>

text \<open>
  The cities taken one after the other in input order, each handed to
  \<^verbatim>\<open>get_city_aqi_info\<close> in the world the previous one left, whatever its outcome: the list
  of the cities with their results, and the last world.
\<close>

fun process_in_order :: "'w AQIApp \<Rightarrow> string list \<Rightarrow> 'w \<Rightarrow> (string \<times> city_info) list \<times> 'w" where
  "process_in_order self [] w = ([], w)"
| "process_in_order self (city # rest) w =
     (case get_city_aqi_info self city w of
        (info, w1) \<Rightarrow>
          (case process_in_order self rest w1 of
             (infos, w2) \<Rightarrow> ((city, info) # infos, w2)))"

text \<open>The successful entries with their current value, and the failed ones with their error.\<close>

fun successes :: "(string \<times> city_info) list \<Rightarrow> (string \<times> real) list" where
  "successes [] = []"
| "successes ((city, Success c aqi category color preds psummary) # rest) = (city, aqi) # successes rest"
| "successes ((city, Error c err) # rest) = successes rest"

fun failures :: "(string \<times> city_info) list \<Rightarrow> (string \<times> string) list" where
  "failures [] = []"
| "failures ((city, Success c aqi category color preds psummary) # rest) = failures rest"
| "failures ((city, Error c err) # rest) = (city, err) # failures rest"

text \<open>The dictionary that a sequence of assignments builds from the empty one.\<close>

definition dict_of :: "('k \<times> 'v) list \<Rightarrow> ('k \<times> 'v) list" where
  "dict_of kvs = foldl (\<lambda>d (k, v). dict_set d k v) [] kvs"

text \<open>
  \<open>first_extreme better xs r\<close>: \<open>r\<close> is an entry of \<open>xs\<close> whose value no entry betters
  and which betters every entry before it, so among equal extreme values the first one.
\<close>

definition first_extreme ::
  "(real \<Rightarrow> real \<Rightarrow> bool) \<Rightarrow> (string \<times> real) list \<Rightarrow> string \<times> real \<Rightarrow> bool" where
  "first_extreme better xs r \<longleftrightarrow>
     (\<exists>i < length xs. r = xs ! i
        \<and> (\<forall>p \<in> set xs. \<not> better (snd p) (snd r))
        \<and> (\<forall>p \<in> set (take i xs). better (snd r) (snd p)))"

subsection \<open>Fetch capabilities of the scenarios\<close>

text \<open>
  Three fetch capabilities on a world that counts the calls: one answers 40 for A and 300
  for C and fails for every other city, one fails for every city, and one answers the
  length of the name and fails for the empty name.
\<close>

definition fetch_A40_C300 :: "string \<Rightarrow> nat \<Rightarrow> (exn + real) \<times> nat" where
  "fetch_A40_C300 city w =
     (if city = ''A'' then Inr 40
      else if city = ''C'' then Inr 300
      else Inl (Exception (''Failed to fetch AQI for '' @ city)), w + 1)"

definition fetch_failing :: "string \<Rightarrow> nat \<Rightarrow> (exn + real) \<times> nat" where
  "fetch_failing city w = (Inl (Exception (''Failed to fetch AQI for '' @ city)), w + 1)"

definition fetch_name_length :: "string \<Rightarrow> nat \<Rightarrow> (exn + real) \<times> nat" where
  "fetch_name_length city w =
     (if city = [] then Inl (Exception ''Failed to fetch AQI'') else Inr (real (length city)), w + 1)"

section \<open>The classifier on and off the bands\<close>

lemma get_aqi_category_unfold:
  "get_aqi_category v =
     (if 0 \<le> v \<and> v \<le> 50 then (''Good'', ''#00e400'')
      else if 51 \<le> v \<and> v \<le> 100 then (''Moderate'', ''#ffff00'')
      else if 101 \<le> v \<and> v \<le> 150 then (''Unhealthy for Sensitive Groups'', ''#ff7e00'')
      else if 151 \<le> v \<and> v \<le> 200 then (''Unhealthy'', ''#ff0000'')
      else if 201 \<le> v \<and> v \<le> 300 then (''Very Unhealthy'', ''#8f3f97'')
      else if 301 \<le> v \<and> v \<le> 500 then (''Hazardous'', ''#7e0023'')
      else (''Unknown'', ''gray''))"
  by (simp add: get_aqi_category_def AQI_CATEGORIES_def)

text \<open>
  C5. Every value from 0 to 50 is classified Good with the green colour token; 50 is Good
  and 51 is Moderate; every value below 0 or above 500 gets the sentinel Unknown/gray. The
  classifier is a total function of its real argument: it has no error result.
\<close>

theorem C5_classifier_good_and_unknown:
  "(0 \<le> v \<and> v \<le> 50 \<longrightarrow> get_aqi_category v = (''Good'', ''#00e400''))
   \<and> get_aqi_category 50 = (''Good'', ''#00e400'')
   \<and> get_aqi_category 51 = (''Moderate'', ''#ffff00'')
   \<and> (v < 0 \<or> 500 < v \<longrightarrow> get_aqi_category v = (''Unknown'', ''gray''))"
  by (simp add: get_aqi_category_unfold)

theorem C5_classifier_good_and_unknown_witness:
  "get_aqi_category 25 = (''Good'', ''#00e400'')
   \<and> get_aqi_category (-3) = (''Unknown'', ''gray'')"
  using C5_classifier_good_and_unknown [of 25] C5_classifier_good_and_unknown [of "-3"]
  by simp

lemma get_aqi_category_integer_covered:
  assumes "0 \<le> n" and "n \<le> 500"
  shows "get_aqi_category (real_of_int n) \<noteq> (''Unknown'', ''gray'')"
proof -
  have "n \<le> 50 \<or> (51 \<le> n \<and> n \<le> 100) \<or> (101 \<le> n \<and> n \<le> 150)
        \<or> (151 \<le> n \<and> n \<le> 200) \<or> (201 \<le> n \<and> n \<le> 300) \<or> 301 \<le> n"
    by arith
  then show ?thesis
    using assms by (auto simp add: get_aqi_category_unfold)
qed

section \<open>The regression reproduces its training signal\<close>

lemma sum_list_affine:
  fixes X :: "real list"
  shows "sum_list (map (\<lambda>x. a * x + b) X) = a * sum_list X + b * real (length X)"
  by (induction X) (simp_all add: algebra_simps)

lemma mean_affine:
  assumes "X \<noteq> []"
  shows "mean (map (\<lambda>x. a * x + b) X) = a * mean X + b"
proof -
  have "real (length X) \<noteq> 0" using assms by simp
  then show ?thesis
    unfolding mean_def sum_list_affine length_map by (simp add: field_simps)
qed

lemma sum_list_squares_zero:
  fixes zs :: "real list"
  assumes "sum_list (map (\<lambda>x. x * x) zs) = 0"
  shows "\<forall>z \<in> set zs. z = 0"
proof -
  have "\<forall>q \<in> set (map (\<lambda>x. x * x) zs). q = 0"
    using assms by (subst (asm) sum_list_nonneg_eq_0_iff) auto
  then show ?thesis by auto
qed

lemma sxy_affine:
  fixes X :: "real list"
  shows "sum_list (map2 (\<lambda>x v. x * v) (map (\<lambda>x. x - m) X)
                     (map (\<lambda>v. v - (a * m + b)) (map (\<lambda>x. a * x + b) X)))
       = a * sum_list (map (\<lambda>x. x * x) (map (\<lambda>x. x - m) X))"
  by (induction X) (simp_all add: algebra_simps)

lemma fit_affine:
  assumes "X \<noteq> []"
  shows "\<exists>m. fit X (map (\<lambda>x. a * x + b) X) = Inr m \<and> predict m X = map (\<lambda>x. a * x + b) X"
proof -
  let ?y = "map (\<lambda>x. a * x + b) X"
  let ?Xc = "map (\<lambda>x. x - mean X) X"
  let ?sxx = "sum_list (map (\<lambda>x. x * x) ?Xc)"
  have my: "mean ?y = a * mean X + b"
    using assms by (rule mean_affine)
  have sxy: "sum_list (map2 (\<lambda>x v. x * v) ?Xc (map (\<lambda>v. v - mean ?y) ?y)) = a * ?sxx"
    unfolding my by (rule sxy_affine)
  have fit_eq: "fit X ?y =
      Inr \<lparr>coef = (if ?sxx = 0 then 0 else a * ?sxx / ?sxx),
           intercept = mean ?y - mean X * (if ?sxx = 0 then 0 else a * ?sxx / ?sxx)\<rparr>"
    unfolding fit_def Let_def sxy using assms by simp
  show ?thesis
  proof (cases "?sxx = 0")
    case True
    then have "\<forall>z \<in> set ?Xc. z = 0"
      by (rule sum_list_squares_zero)
    then have flat: "\<forall>x \<in> set X. x = mean X" by auto
    have "fit X ?y = Inr \<lparr>coef = 0, intercept = a * mean X + b\<rparr>"
      unfolding fit_eq my using True by simp
    moreover have "predict \<lparr>coef = 0, intercept = a * mean X + b\<rparr> X = ?y"
      using flat by (simp add: predict_def)
    ultimately show ?thesis by simp
  next
    case False
    have "fit X ?y = Inr \<lparr>coef = a, intercept = b\<rparr>"
      unfolding fit_eq my using False by simp
    moreover have "predict \<lparr>coef = a, intercept = b\<rparr> X = ?y"
      by (simp add: predict_def algebra_simps)
    ultimately show ?thesis by simp
  qed
qed

lemma range_py_nonempty: "1 \<le> n \<Longrightarrow> range_py n \<noteq> []"
  by (simp add: range_py_def)

lemma length_range_py: "length (range_py n) = nat n"
  by (simp add: range_py_def)

lemma nth_range_py: "i < nat n \<Longrightarrow> range_py n ! i = int i"
  by (simp add: range_py_def)

lemma hd_range_py: "1 \<le> n \<Longrightarrow> hd (range_py n) = 0"
  by (simp add: range_py_def upto.simps)

lemma last_range_py: "1 \<le> n \<Longrightarrow> last (range_py n) = n - 1"
  by (simp add: range_py_def upto_rec2)

lemma upto_vals:
  "[0..6::int] = [0, 1, 2, 3, 4, 5, 6]" "[1..7::int] = [1, 2, 3, 4, 5, 6, 7]"
  "[0..2::int] = [0, 1, 2]" "[1..3::int] = [1, 2, 3]" "[0..0::int] = [0]"
  by (simp_all add: upto.simps)

text \<open>
  For a horizon of at least one day the fit succeeds and the clipped predictions are the
  clipped training signal: the regression-based code agrees with the direct evaluation of
  its own formula, on \<open>i\<close> from 0 to \<open>days - 1\<close>.
\<close>

lemma predict_aqi_affine:
  assumes "1 \<le> days"
  shows "predict_aqi self current (Some days)
           = Inr (clip (training_signal current (growth_rate self) days) 0 500)"
proof -
  let ?X = "map (\<lambda>i. real_of_int (i + 1)) (range_py days)"
  let ?a = "current * growth_rate self"
  let ?b = "current * (1 - growth_rate self)"
  have y: "map (\<lambda>i. current * (1 + growth_rate self * real_of_int i)) (range_py days)
            = map (\<lambda>x. ?a * x + ?b) ?X"
    by (simp add: algebra_simps)
  have "?X \<noteq> []" using assms by (simp add: range_py_nonempty)
  from fit_affine [OF this, of ?a ?b] obtain m where
    m: "fit ?X (map (\<lambda>x. ?a * x + ?b) ?X) = Inr m" "predict m ?X = map (\<lambda>x. ?a * x + ?b) ?X"
    by blast
  show ?thesis
    unfolding predict_aqi_def Let_def training_signal_def option.case y m(1) sum.case m(2) ..
qed

lemma predict_aqi_nonpositive:
  assumes "days \<le> 0"
  shows "\<exists>e. predict_aqi self current (Some days) = Inl e"
  using assms by (simp add: predict_aqi_def range_py_def fit_def)

lemma predict_aqi_default: "predict_aqi self x None = predict_aqi self x (Some 7)"
  by (simp add: predict_aqi_def DEFAULT_PREDICTION_DAYS_def)

lemma clip_bounds: "v \<in> set (clip a 0 500) \<Longrightarrow> 0 \<le> v \<and> v \<le> 500"
  by (auto simp add: clip_def)

lemma nth_clip: "i < length a \<Longrightarrow> clip a lo hi ! i = min hi (max (a ! i) lo)"
  by (simp add: clip_def)

lemma hd_series:
  assumes "1 \<le> days"
  shows "hd (clip (training_signal x g days) 0 500) = min 500 (max x 0)"
  using assms by (simp add: clip_def training_signal_def hd_map range_py_nonempty hd_range_py)

lemma last_series:
  assumes "1 \<le> days"
  shows "last (clip (training_signal x g days) 0 500)
           = min 500 (max (x * (1 + g * real_of_int (days - 1))) 0)"
  using assms by (simp add: clip_def training_signal_def last_map range_py_nonempty last_range_py)

lemma series_nonempty: "1 \<le> days \<Longrightarrow> clip (training_signal x g days) 0 500 \<noteq> []"
  by (simp add: clip_def training_signal_def range_py_nonempty)

lemma summary_eq:
  assumes "1 \<le> days"
  shows "get_prediction_summary self x (Some days) =
    (let ps = clip (training_signal x (growth_rate self) days) 0 500 in
     Inr \<lparr>predictions = ps, min_predicted = np_min ps, max_predicted = np_max ps,
          avg_predicted = mean ps,
          trend = (if last ps > hd ps then ''increasing'' else ''decreasing'')\<rparr>)"
  using assms by (simp add: get_prediction_summary_def predict_aqi_affine series_nonempty Let_def)

lemma summary_default:
  "get_prediction_summary pr v None = get_prediction_summary pr v (Some 7)"
  by (simp add: get_prediction_summary_def predict_aqi_default)

lemmas series_eval = training_signal_def spec_affine_series_def range_py_def clip_def
  AQIPredictor_init_def PREDICTION_GROWTH_RATE_def upto_vals

section \<open>The projection\<close>

text \<open>
  C1. At current value 100, horizon 7 and growth rate 0.04 the code returns
  100, 104, 108, 112, 116, 120, 124: the fitted line reproduces the training signal, whose
  index runs over \<^verbatim>\<open>range(days)\<close> and so starts at 0, paired with the features 1 to 7.
  The direct formula of the specification, on \<open>i\<close> from 1 to 7, gives 104 to 128: the two
  differ by one step of growth at every day.
\<close>

theorem C1_projection_100_7:
  "predict_aqi (AQIPredictor_init (Some (4 / 100))) 100 (Some 7)
     = Inr [100, 104, 108, 112, 116, 120, 124]
   \<and> clip (spec_affine_series 100 (4 / 100) 7) 0 500 = [104, 108, 112, 116, 120, 124, 128]"
  by (simp add: predict_aqi_affine series_eval)

text \<open>
  C8. At current value 480, horizon 3 and growth rate 0.5 the fit is the line
  \<open>240 * x + 240\<close>, its raw predictions are 480, 720, 960 and the code returns
  480, 500, 500: the first day is not clipped. The formula of the specification gives the
  raw values 720, 960, 1200 and, clipped, 500, 500, 500.
\<close>

theorem C8_projection_480_3:
  "predict_aqi (AQIPredictor_init (Some (1 / 2))) 480 (Some 3) = Inr [480, 500, 500]
   \<and> fit [1, 2, 3] [480, 720, 960] = Inr \<lparr>coef = 240, intercept = 240\<rparr>
   \<and> predict \<lparr>coef = 240, intercept = 240\<rparr> [1, 2, 3] = [480, 720, 960]
   \<and> spec_affine_series 480 (1 / 2) 3 = [720, 960, 1200]
   \<and> clip (spec_affine_series 480 (1 / 2) 3) 0 500 = [500, 500, 500]"
  by (simp add: predict_aqi_affine series_eval fit_def mean_def predict_def Let_def)

text \<open>
  C6. The bands do not cover the interval from 0 to 500: 50.5 lies between the bands Good
  and Moderate and is classified Unknown/gray, although \<^verbatim>\<open>validate_aqi\<close> accepts it as a
  valid value. Such a value reaches the classifier from the code itself: with the default
  rate the second predicted value for a current value of 49 is 50.96, and the trend plot
  classifies every predicted value. (On integers from 0 to 500 some band always matches:
  \<open>get_aqi_category_integer_covered\<close>.)
\<close>

theorem C6_gap_between_bands:
  "validate_aqi (Num (101 / 2))
   \<and> get_aqi_category (101 / 2) = (''Unknown'', ''gray'')
   \<and> predict_aqi (AQIPredictor_init None) 49 None
        = Inr [49, 1274 / 25, 1323 / 25, 1372 / 25, 1421 / 25, 294 / 5, 1519 / 25]
   \<and> get_aqi_category (1274 / 25) = (''Unknown'', ''gray'')"
  by (simp add: validate_aqi_def predict_aqi_default predict_aqi_affine series_eval
      get_aqi_category_unfold)

text \<open>
  C10. A predictor constructed with growth rate 0 is the predictor constructed with no
  growth rate: its rate is the configured 0.04, and its projection and its summary are
  those of the default predictor for every current value and horizon. No argument of the
  constructor yields the rate 0.
\<close>

theorem C10_zero_rate_is_default:
  "AQIPredictor_init (Some 0) = AQIPredictor_init None
   \<and> growth_rate (AQIPredictor_init (Some 0)) = 4 / 100
   \<and> predict_aqi (AQIPredictor_init (Some 0)) x d = predict_aqi (AQIPredictor_init None) x d
   \<and> get_prediction_summary (AQIPredictor_init (Some 0)) x d
       = get_prediction_summary (AQIPredictor_init None) x d
   \<and> growth_rate (AQIPredictor_init g) \<noteq> 0"
  by (simp add: AQIPredictor_init_def PREDICTION_GROWTH_RATE_def split: option.split)

section \<open>The trend of the summary\<close>




section \<open>The projection within the float64 range\<close>

lemma max_float_room: "4 * (10::real) ^ 150 \<le> max_float" "0 < max_float"
  by (simp_all add: max_float_def)

lemma fl_Fin: "\<bar>r\<bar> \<le> max_float \<Longrightarrow> fl r = Fin r"
  by (auto simp add: fl_def)

lemma finite_values_Fin: "finite_values (map Fin rs) = Some rs"
  by (induction rs) simp_all

lemma sum_list_abs_bound:
  fixes ys :: "real list"
  assumes "\<forall>v \<in> set ys. \<bar>v\<bar> \<le> B"
  shows "\<bar>sum_list ys\<bar> \<le> real (length ys) * B"
  using assms
proof (induction ys)
  case Nil
  show ?case by simp
next
  case (Cons v ys)
  then have "\<bar>v\<bar> \<le> B" "\<bar>sum_list ys\<bar> \<le> real (length ys) * B" by simp_all
  then show ?case by (simp add: algebra_simps)
qed

lemma foldl_add64_Fin:
  assumes "\<forall>v \<in> set ys. \<bar>v\<bar> \<le> B"
    and "\<bar>s\<bar> + real (length ys) * B \<le> max_float"
  shows "foldl add64 (Fin s) (map Fin ys) = Fin (s + sum_list ys)"
  using assms
proof (induction ys arbitrary: s)
  case Nil
  show ?case by simp
next
  case (Cons v ys)
  from Cons.prems have v: "\<bar>v\<bar> \<le> B" by simp
  then have B0: "0 \<le> B" by linarith
  have nn: "0 \<le> real (length ys) * B" using B0 by simp
  from Cons.prems(2) have p2: "\<bar>s\<bar> + B + real (length ys) * B \<le> max_float"
    by (simp add: algebra_simps)
  have tri: "\<bar>s + v\<bar> \<le> \<bar>s\<bar> + B" using v by linarith
  from tri p2 nn have step: "\<bar>s + v\<bar> \<le> max_float" by linarith
  from tri p2 have rest: "\<bar>s + v\<bar> + real (length ys) * B \<le> max_float" by linarith
  from Cons.prems(1) have "\<forall>w \<in> set ys. \<bar>w\<bar> \<le> B" by simp
  from Cons.IH [OF this rest] show ?case
    using step by (simp add: fl_Fin algebra_simps)
qed

lemma sum64_Fin:
  assumes "\<forall>v \<in> set ys. \<bar>v\<bar> \<le> B" and "real (length ys) * B \<le> max_float"
  shows "sum64 (map Fin ys) = Fin (sum_list ys)"
  using foldl_add64_Fin [of ys B 0] assms by (simp add: sum64_def)

lemma mean_abs_bound:
  assumes "ys \<noteq> []" and "\<forall>v \<in> set ys. \<bar>v\<bar> \<le> B"
  shows "\<bar>mean ys\<bar> \<le> B"
proof -
  have n: "0 < real (length ys)" using assms(1) by simp
  have "\<bar>sum_list ys\<bar> \<le> real (length ys) * B"
    using assms(2) by (rule sum_list_abs_bound)
  then have "\<bar>sum_list ys\<bar> / real (length ys) \<le> B"
    using n by (simp add: field_simps)
  then show ?thesis by (simp add: mean_def)
qed

lemma sub64_Fin: "\<bar>a - b\<bar> \<le> max_float \<Longrightarrow> sub64 (Fin a) (Fin b) = Fin (a - b)"
  by (simp add: sub64_def fl_Fin)

lemma mul64_Fin: "\<bar>a * b\<bar> \<le> max_float \<Longrightarrow> mul64 (Fin a) (Fin b) = Fin (a * b)"
  by (simp add: fl_Fin)

lemma add64_Fin: "\<bar>a + b\<bar> \<le> max_float \<Longrightarrow> add64 (Fin a) (Fin b) = Fin (a + b)"
  by (simp add: fl_Fin)

text \<open>Within the range the float64 fit is the exact fit.\<close>

lemma fit_f64_exact:
  assumes fit: "fit X ys = Inr m"
    and len: "length ys = length X"
    and ys: "\<forall>v \<in> set ys. \<bar>v\<bar> \<le> B"
    and room: "real (length ys) * B \<le> max_float" "2 * B \<le> max_float"
    and w: "\<bar>coef m\<bar> \<le> max_float" "\<bar>mean X * coef m\<bar> \<le> max_float"
           "\<bar>intercept m\<bar> \<le> max_float"
  shows "fit_f64 X (map Fin ys) = Inr \<lparr>coef64 = Fin (coef m), intercept64 = Fin (intercept m)\<rparr>"
proof -
  from fit have X: "X \<noteq> []" by (auto simp add: fit_def split: if_splits)
  with len have ne: "ys \<noteq> []" by auto
  let ?Xc = "map (\<lambda>x. x - mean X) X"
  let ?yc = "map (\<lambda>v. v - mean ys) ys"
  let ?sxx = "sum_list (map (\<lambda>x. x * x) ?Xc)"
  let ?sxy = "sum_list (map2 (\<lambda>x v. x * v) ?Xc ?yc)"
  let ?w = "if ?sxx = 0 then 0 else ?sxy / ?sxx"
  from fit X have m: "m = \<lparr>coef = ?w, intercept = mean ys - mean X * ?w\<rparr>"
    by (simp add: fit_def Let_def)
  have off: "div_count (sum64 (map Fin ys)) (length (map Fin ys)) = Fin (mean ys)"
    using sum64_Fin [OF ys room(1)] by (simp add: mean_def)
  have mb: "\<bar>mean ys\<bar> \<le> B" using ne ys by (rule mean_abs_bound)
  have "\<forall>v \<in> set ys. sub64 (Fin v) (Fin (mean ys)) = Fin (v - mean ys)"
  proof
    fix v assume "v \<in> set ys"
    with ys have "\<bar>v\<bar> \<le> B" by simp
    with mb room(2) have "\<bar>v - mean ys\<bar> \<le> max_float" by linarith
    then show "sub64 (Fin v) (Fin (mean ys)) = Fin (v - mean ys)" by (rule sub64_Fin)
  qed
  then have "map (\<lambda>v. sub64 v (Fin (mean ys))) (map Fin ys) = map Fin ?yc"
    by simp
  then have yc: "finite_values (map (\<lambda>v. sub64 v (Fin (mean ys))) (map Fin ys)) = Some ?yc"
    by (simp only: finite_values_Fin)
  have cw: "coef m = ?w" and ci: "intercept m = mean ys - mean X * ?w"
    using m by simp_all
  have flw: "fl ?w = Fin ?w" using w(1) cw by (simp only: fl_Fin)
  have mulw: "mul64 (Fin (mean X)) (Fin ?w) = Fin (mean X * ?w)"
    using w(2) cw by (simp only: mul64_Fin)
  have subw: "sub64 (Fin (mean ys)) (Fin (mean X * ?w)) = Fin (mean ys - mean X * ?w)"
    using w(3) ci by (simp only: sub64_Fin)
  show ?thesis
    unfolding fit_f64_def Let_def finite_values_Fin option.case off yc flw mulw subw m
    using X by simp
qed

lemma predict_f64_exact:
  assumes "\<forall>x \<in> set X. \<bar>x * w\<bar> \<le> max_float \<and> \<bar>x * w + ic\<bar> \<le> max_float"
  shows "predict_f64 \<lparr>coef64 = Fin w, intercept64 = Fin ic\<rparr> X
           = map Fin (predict \<lparr>coef = w, intercept = ic\<rparr> X)"
  using assms by (simp add: predict_f64_def predict_def fl_Fin)

lemma fit_affine_model:
  assumes "X \<noteq> []"
  shows "\<exists>m. fit X (map (\<lambda>x. a * x + b) X) = Inr m
           \<and> predict m X = map (\<lambda>x. a * x + b) X
           \<and> (coef m = 0 \<or> coef m = a)
           \<and> intercept m = mean (map (\<lambda>x. a * x + b) X) - mean X * coef m"
proof -
  let ?y = "map (\<lambda>x. a * x + b) X"
  let ?Xc = "map (\<lambda>x. x - mean X) X"
  let ?sxx = "sum_list (map (\<lambda>x. x * x) ?Xc)"
  let ?w = "if ?sxx = 0 then 0 else a * ?sxx / ?sxx"
  have my: "mean ?y = a * mean X + b"
    using assms by (rule mean_affine)
  have sxy: "sum_list (map2 (\<lambda>x v. x * v) ?Xc (map (\<lambda>v. v - mean ?y) ?y)) = a * ?sxx"
    unfolding my by (rule sxy_affine)
  have fit_eq: "fit X ?y = Inr \<lparr>coef = ?w, intercept = mean ?y - mean X * ?w\<rparr>"
    unfolding fit_def Let_def sxy using assms by simp
  from fit_affine [OF assms, of a b] obtain m where
    m: "fit X ?y = Inr m" "predict m X = ?y" by blast
  from m(1) fit_eq have meq: "m = \<lparr>coef = ?w, intercept = mean ?y - mean X * ?w\<rparr>" by simp
  have "coef m = 0 \<or> coef m = a" unfolding meq by simp
  moreover have "intercept m = mean ?y - mean X * coef m" unfolding meq by simp
  ultimately show ?thesis using m by blast
qed

lemma mean_between:
  assumes "xs \<noteq> []" and "\<forall>x \<in> set xs. lo \<le> x \<and> x \<le> hi"
  shows "lo \<le> mean xs \<and> mean xs \<le> hi"
proof -
  have n: "0 < real (length xs)" using assms(1) by simp
  have "real (length xs) * lo \<le> sum_list xs \<and> sum_list xs \<le> real (length xs) * hi"
    using assms(2) by (induction xs) (auto simp add: algebra_simps)
  then show ?thesis using n by (simp add: mean_def field_simps)
qed

lemma range_py_set: "i \<in> set (range_py n) \<longleftrightarrow> 0 \<le> i \<and> i \<le> n - 1"
  by (auto simp add: range_py_def)

lemma y_elem_exact:
  assumes "\<bar>c\<bar> \<le> max_float" "\<bar>g * real_of_int i\<bar> \<le> max_float"
    "\<bar>1 + g * real_of_int i\<bar> \<le> max_float" "\<bar>c * (1 + g * real_of_int i)\<bar> \<le> max_float"
  shows "y_elem c g i = Inr (Fin (c * (1 + g * real_of_int i)))"
proof -
  have "to_float c = Inr (Fin c)" using assms(1) by (simp add: to_float_def)
  moreover have "mul64 (Fin g) (Fin (real_of_int i)) = Fin (g * real_of_int i)"
    using assms(2) by (rule mul64_Fin)
  moreover have "add64 (Fin 1) (Fin (g * real_of_int i)) = Fin (1 + g * real_of_int i)"
    using assms(3) by (rule add64_Fin)
  moreover have "mul64 (Fin c) (Fin (1 + g * real_of_int i)) = Fin (c * (1 + g * real_of_int i))"
    using assms(4) by (rule mul64_Fin)
  ultimately show ?thesis by (simp only: y_elem_def sum.case)
qed

lemma y_list_exact:
  assumes "\<forall>i \<in> set idx. y_elem c g i = Inr (Fin (c * (1 + g * real_of_int i)))"
  shows "y_list c g idx = Inr (map Fin (map (\<lambda>i. c * (1 + g * real_of_int i)) idx))"
  using assms by (induction idx) simp_all

text \<open>The magnitudes of the training signal under the bound.\<close>

lemma signal_bound:
  fixes c g t n :: real
  assumes "0 \<le> t" "t \<le> n"
  shows "\<bar>c * (1 + g * t)\<bar> \<le> \<bar>c\<bar> * (1 + \<bar>g\<bar> * n)"
proof -
  have "\<bar>g * t\<bar> = \<bar>g\<bar> * t" using assms(1) by (simp add: abs_mult)
  moreover have "\<bar>g\<bar> * t \<le> \<bar>g\<bar> * n" using assms(2) by (intro mult_left_mono) simp_all
  ultimately have "\<bar>g * t\<bar> \<le> \<bar>g\<bar> * n" by simp
  then have "\<bar>1 + g * t\<bar> \<le> 1 + \<bar>g\<bar> * n" by linarith
  then have "\<bar>c\<bar> * \<bar>1 + g * t\<bar> \<le> \<bar>c\<bar> * (1 + \<bar>g\<bar> * n)"
    by (intro mult_left_mono) simp_all
  then show ?thesis by (simp add: abs_mult)
qed

lemma predict_aqi_f64_in_range:
  assumes d: "1 \<le> days"
    and r: "\<bar>growth_rate self\<bar> * real_of_int days \<le> 10 ^ 150"
    and b: "\<bar>current\<bar> * (1 + \<bar>growth_rate self\<bar> * real_of_int days) * real_of_int days \<le> 10 ^ 150"
  shows "\<exists>m. predict_aqi_f64 self current (Some days) =
           (Inr (map (\<lambda>v. clip64 v 0 500) (map Fin (training_signal current (growth_rate self) days))),
            self\<lparr>model := Some m\<rparr>)
         \<and> predict_f64 m (map (\<lambda>i. real_of_int (i + 1)) (range_py days))
             = map Fin (training_signal current (growth_rate self) days)"
proof -
  let ?g = "growth_rate self"
  let ?n = "real_of_int days"
  let ?B = "\<bar>current\<bar> * (1 + \<bar>?g\<bar> * ?n)"
  let ?X = "map (\<lambda>i. real_of_int (i + 1)) (range_py days)"
  let ?ys = "training_signal current ?g days"
  let ?a = "current * ?g"
  let ?b = "current * (1 - ?g)"
  have n1: "1 \<le> ?n" using d by simp
  have gn0: "0 \<le> \<bar>?g\<bar> * ?n" using n1 by simp
  have B0: "0 \<le> ?B" using gn0 by simp
  have "?B * 1 \<le> ?B * ?n" by (rule mult_left_mono [OF n1 B0])
  then have Bn: "?B \<le> ?B * ?n" by (simp only: mult_1_right)
  have BT: "?B \<le> 10 ^ 150" using Bn b by linarith
  have room: "4 * (10::real) ^ 150 \<le> max_float" by (rule max_float_room)
  have T0: "0 < (10::real) ^ 150" by simp
  have cB: "\<bar>current\<bar> \<le> ?B"
  proof -
    have "\<bar>current\<bar> * 1 \<le> \<bar>current\<bar> * (1 + \<bar>?g\<bar> * ?n)"
      using gn0 by (intro mult_left_mono) simp_all
    then show ?thesis by (simp only: mult_1_right)
  qed
  have cgB: "\<bar>current\<bar> * (\<bar>?g\<bar> * ?n) \<le> ?B"
  proof -
    have "\<bar>current\<bar> * (\<bar>?g\<bar> * ?n) \<le> \<bar>current\<bar> * (1 + \<bar>?g\<bar> * ?n)"
      by (intro mult_left_mono) simp_all
    then show ?thesis .
  qed
  \<comment> \<open>the list comprehension\<close>
  have elem: "\<forall>i \<in> set (range_py days). y_elem current ?g i = Inr (Fin (current * (1 + ?g * real_of_int i)))"
  proof
    fix i assume "i \<in> set (range_py days)"
    then have i: "0 \<le> real_of_int i" "real_of_int i \<le> ?n"
      by (simp_all add: range_py_set)
    have "\<bar>?g * real_of_int i\<bar> = \<bar>?g\<bar> * real_of_int i" using i(1) by (simp add: abs_mult)
    moreover have "\<bar>?g\<bar> * real_of_int i \<le> \<bar>?g\<bar> * ?n" using i(2) by (intro mult_left_mono) simp_all
    ultimately have gi: "\<bar>?g * real_of_int i\<bar> \<le> 10 ^ 150" using r by linarith
    then have gi1: "\<bar>1 + ?g * real_of_int i\<bar> \<le> 1 + 10 ^ 150" by linarith
    have "(1::real) \<le> 10 ^ 150" by simp
    with gi gi1 room have g1: "\<bar>?g * real_of_int i\<bar> \<le> max_float" and g2: "\<bar>1 + ?g * real_of_int i\<bar> \<le> max_float"
      by linarith+
    from signal_bound [OF i, of current ?g] BT room
    have g3: "\<bar>current * (1 + ?g * real_of_int i)\<bar> \<le> max_float" by linarith
    from cB BT room have g0: "\<bar>current\<bar> \<le> max_float" by linarith
    from g0 g1 g2 g3 show "y_elem current ?g i = Inr (Fin (current * (1 + ?g * real_of_int i)))"
      by (rule y_elem_exact)
  qed
  have ylist: "y_list current ?g (range_py days) = Inr (map Fin ?ys)"
    unfolding training_signal_def using elem by (rule y_list_exact)
  \<comment> \<open>the signal and its bound\<close>
  have ysB: "\<forall>v \<in> set ?ys. \<bar>v\<bar> \<le> ?B"
  proof
    fix v assume "v \<in> set ?ys"
    then obtain i where i: "i \<in> set (range_py days)" and v: "v = current * (1 + ?g * real_of_int i)"
      by (auto simp add: training_signal_def)
    from i have "0 \<le> real_of_int i" "real_of_int i \<le> ?n" by (simp_all add: range_py_set)
    from signal_bound [OF this, of current ?g] v show "\<bar>v\<bar> \<le> ?B" by simp
  qed
  have len: "length ?ys = length ?X" by (simp add: training_signal_def)
  have lenn: "real (length ?ys) = ?n"
    using d by (simp add: training_signal_def length_range_py)
  have Xne: "?X \<noteq> []" using d by (simp add: range_py_nonempty)
  have yaff: "?ys = map (\<lambda>x. ?a * x + ?b) ?X"
    by (simp add: training_signal_def algebra_simps)
  from fit_affine_model [OF Xne, of ?a ?b] obtain m where
    m: "fit ?X ?ys = Inr m" "predict m ?X = ?ys" "coef m = 0 \<or> coef m = ?a"
       "intercept m = mean ?ys - mean ?X * coef m"
    unfolding yaff [symmetric] by blast
  \<comment> \<open>the fitted line and its bounds\<close>
  have XB: "\<forall>x \<in> set ?X. 1 \<le> x \<and> x \<le> ?n"
  proof
    fix x assume "x \<in> set ?X"
    then obtain i where i: "i \<in> set (range_py days)" and x: "x = real_of_int (i + 1)"
      by auto
    from i have "0 \<le> i" "i \<le> days - 1" by (simp_all add: range_py_set)
    then have "(1::int) \<le> i + 1" "i + 1 \<le> days" by simp_all
    then have "1 \<le> real_of_int (i + 1)" "real_of_int (i + 1) \<le> real_of_int days"
      by (simp_all only: of_int_le_iff of_int_1_le_iff)
    then show "1 \<le> x \<and> x \<le> ?n" unfolding x by simp
  qed
  from mean_between [OF Xne XB] have mX: "1 \<le> mean ?X" "mean ?X \<le> ?n" by simp_all
  have coefB: "\<bar>coef m\<bar> \<le> \<bar>current\<bar> * \<bar>?g\<bar>"
    using m(3) by (auto simp add: abs_mult)
  have cg0: "0 \<le> \<bar>current\<bar> * \<bar>?g\<bar>" by simp
  have xcoef: "\<And>x. 1 \<le> x \<Longrightarrow> x \<le> ?n \<Longrightarrow> \<bar>x * coef m\<bar> \<le> ?B"
  proof -
    fix x :: real assume x: "1 \<le> x" "x \<le> ?n"
    have "\<bar>x * coef m\<bar> = x * \<bar>coef m\<bar>" using x(1) by (simp add: abs_mult)
    also have "\<dots> \<le> x * (\<bar>current\<bar> * \<bar>?g\<bar>)" using coefB x(1) by (intro mult_left_mono) simp_all
    also have "\<dots> \<le> ?n * (\<bar>current\<bar> * \<bar>?g\<bar>)" using x(2) cg0 by (intro mult_right_mono) simp_all
    also have "\<dots> = \<bar>current\<bar> * (\<bar>?g\<bar> * ?n)" by simp
    also have "\<dots> \<le> ?B" by (rule cgB)
    finally show "\<bar>x * coef m\<bar> \<le> ?B" .
  qed
  have w1: "\<bar>coef m\<bar> \<le> max_float"
    using xcoef [of 1] n1 BT room T0 by simp
  have mXc: "\<bar>mean ?X * coef m\<bar> \<le> ?B" using mX by (rule xcoef)
  then have w2: "\<bar>mean ?X * coef m\<bar> \<le> max_float" using BT room T0 by linarith
  have myB: "\<bar>mean ?ys\<bar> \<le> ?B"
    using len Xne ysB by (intro mean_abs_bound) auto
  have w3: "\<bar>intercept m\<bar> \<le> max_float"
    unfolding m(4) using myB mXc BT room T0 by linarith
  have r1: "real (length ?ys) * ?B \<le> max_float"
    unfolding lenn using b room by (simp add: mult.commute)
  have r2: "2 * ?B \<le> max_float" using BT room T0 by linarith
  from fit_f64_exact [OF m(1) len ysB r1 r2 w1 w2 w3]
  have fit64: "fit_f64 ?X (map Fin ?ys) = Inr \<lparr>coef64 = Fin (coef m), intercept64 = Fin (intercept m)\<rparr>" .
  \<comment> \<open>the predictions\<close>
  have pe: "\<forall>x \<in> set ?X. x * coef m + intercept m = ?a * x + ?b"
    using m(2) unfolding yaff by (simp add: predict_def)
  have pb: "\<forall>x \<in> set ?X. \<bar>x * coef m\<bar> \<le> max_float \<and> \<bar>x * coef m + intercept m\<bar> \<le> max_float"
  proof
    fix x assume x: "x \<in> set ?X"
    with XB have xr: "1 \<le> x" "x \<le> ?n" by blast+
    from xcoef [OF xr] BT room have p1: "\<bar>x * coef m\<bar> \<le> max_float" by linarith
    have e1: "?a * x + ?b = current * (1 + ?g * (x - 1))" by (simp add: algebra_simps)
    have e2: "\<bar>current * (1 + ?g * (x - 1))\<bar> \<le> ?B"
      using xr by (intro signal_bound) simp_all
    from pe x have e3: "x * coef m + intercept m = ?a * x + ?b" by blast
    have "\<bar>x * coef m + intercept m\<bar> \<le> ?B" unfolding e3 e1 by (rule e2)
    with BT room have "\<bar>x * coef m + intercept m\<bar> \<le> max_float" by linarith
    with p1 show "\<bar>x * coef m\<bar> \<le> max_float \<and> \<bar>x * coef m + intercept m\<bar> \<le> max_float" ..
  qed
  have mrec: "\<lparr>coef = coef m, intercept = intercept m\<rparr> = m" by simp
  from predict_f64_exact [OF pb]
  have pred: "predict_f64 \<lparr>coef64 = Fin (coef m), intercept64 = Fin (intercept m)\<rparr> ?X = map Fin ?ys"
    unfolding mrec m(2) .
  have "predict_aqi_f64 self current (Some days) =
           (Inr (map (\<lambda>v. clip64 v 0 500) (map Fin ?ys)),
            self\<lparr>model := Some \<lparr>coef64 = Fin (coef m), intercept64 = Fin (intercept m)\<rparr>\<rparr>)"
    unfolding predict_aqi_f64_def Let_def option.case ylist sum.case fit64 pred ..
  with pred show ?thesis by blast
qed

lemmas f64_eval = predict_aqi_f64_def y_elem_def to_float_def fit_f64_def predict_f64_def
  sum64_def sub64_def fl_def max_float_def mean_def range_py_def upto_vals Let_def

text \<open>
  C7, as stated, fails. The current value \<open>10 ^ 308\<close> is a finite float64 value; with the
  default rate and horizon every element of the training signal is finite, but their sum
  is not, the mean is an infinity and the solver refuses the centred signal: the projection
  raises and returns no series. The integer \<open>10 ^ 400\<close> is a finite number too; its
  product with a float raises.
\<close>

theorem C7_projection_counterexample:
  "(10::real) ^ 308 \<le> max_float
   \<and> isl (fst (predict_aqi_f64 \<lparr>growth_rate = 4 / 100, model = None\<rparr> (10 ^ 308) (Some 7)))
   \<and> isl (fst (predict_aqi_f64 \<lparr>growth_rate = 4 / 100, model = None\<rparr> (10 ^ 400) (Some 7)))"
  by (simp add: f64_eval)

text \<open>
  C7, amended. For every horizon from one day to a million days and every current value
  and growth rate whose magnitudes stay far inside the float64 range (the rate times the
  horizon, and the largest value of the signal times the horizon, at most \<open>10 ^ 150\<close>), the
  projection returns exactly \<open>days\<close> values and leaves the fitted model in the predictor.
  Every value is finite and lies between 0 and 500; the series is the prediction of the
  fitted line at each day, replaced by 0 when below 0 and by 500 when above 500. The
  series depends on the current value, the growth rate and the horizon only: it is the
  same whatever model an earlier call left in the predictor, and the same when the call
  is repeated on the predictor it returned.
\<close>

theorem C7_projection_amended:
  assumes d: "1 \<le> days" and dmax: "days \<le> 10 ^ 6"
    and r: "\<bar>growth_rate self\<bar> * real_of_int days \<le> 10 ^ 150"
    and b: "\<bar>current\<bar> * (1 + \<bar>growth_rate self\<bar> * real_of_int days) * real_of_int days \<le> 10 ^ 150"
  shows "\<exists>ps m. predict_aqi_f64 self current (Some days) = (Inr ps, self\<lparr>model := Some m\<rparr>)
          \<and> length ps = nat days
          \<and> (\<forall>v \<in> set ps. \<exists>r. v = Fin r \<and> 0 \<le> r \<and> r \<le> 500)
          \<and> ps = map (\<lambda>v. clip64 v 0 500)
                     (predict_f64 m (map (\<lambda>i. real_of_int (i + 1)) (range_py days)))
          \<and> (\<forall>i < nat days. \<exists>raw.
                predict_f64 m (map (\<lambda>i. real_of_int (i + 1)) (range_py days)) ! i = Fin raw
                \<and> ps ! i = Fin (if raw < 0 then 0 else if 500 < raw then 500 else raw))
          \<and> (\<forall>m0. fst (predict_aqi_f64 (self\<lparr>model := m0\<rparr>) current (Some days)) = Inr ps)
          \<and> fst (predict_aqi_f64 (snd (predict_aqi_f64 self current (Some days))) current (Some days))
               = Inr ps"
proof -
  let ?X = "map (\<lambda>i. real_of_int (i + 1)) (range_py days)"
  let ?ys = "training_signal current (growth_rate self) days"
  let ?ps = "map (\<lambda>v. clip64 v 0 500) (map Fin ?ys)"
  from predict_aqi_f64_in_range [OF d r b] obtain m where
    run: "predict_aqi_f64 self current (Some days) = (Inr ?ps, self\<lparr>model := Some m\<rparr>)"
    and raw: "predict_f64 m ?X = map Fin ?ys"
    by blast
  have len: "length ?ps = nat days"
    by (simp add: training_signal_def length_range_py)
  have range: "\<forall>v \<in> set ?ps. \<exists>r. v = Fin r \<and> 0 \<le> r \<and> r \<le> 500"
    by auto
  have clipped: "?ps = map (\<lambda>v. clip64 v 0 500) (predict_f64 m ?X)"
    unfolding raw ..
  have elems: "\<forall>i < nat days. \<exists>raw.
                predict_f64 m ?X ! i = Fin raw
                \<and> ?ps ! i = Fin (if raw < 0 then 0 else if 500 < raw then 500 else raw)"
  proof (intro allI impI)
    fix i assume "i < nat days"
    then have i: "i < length ?ys" by (simp add: training_signal_def length_range_py)
    then have "predict_f64 m ?X ! i = Fin (?ys ! i)" unfolding raw by simp
    moreover have "?ps ! i = Fin (if ?ys ! i < 0 then 0 else if 500 < ?ys ! i then 500 else ?ys ! i)"
      using i by (simp add: min_def max_def)
    ultimately show "\<exists>raw. predict_f64 m ?X ! i = Fin raw
                \<and> ?ps ! i = Fin (if raw < 0 then 0 else if 500 < raw then 500 else raw)"
      by blast
  qed
  have stale: "\<forall>m0. fst (predict_aqi_f64 (self\<lparr>model := m0\<rparr>) current (Some days)) = Inr ?ps"
  proof
    fix m0
    have r': "\<bar>growth_rate (self\<lparr>model := m0\<rparr>)\<bar> * real_of_int days \<le> 10 ^ 150"
      using r by simp
    have b': "\<bar>current\<bar> * (1 + \<bar>growth_rate (self\<lparr>model := m0\<rparr>)\<bar> * real_of_int days) * real_of_int days \<le> 10 ^ 150"
      using b by simp
    from predict_aqi_f64_in_range [OF d r' b']
    show "fst (predict_aqi_f64 (self\<lparr>model := m0\<rparr>) current (Some days)) = Inr ?ps"
      by auto
  qed
  from stale have "fst (predict_aqi_f64 (self\<lparr>model := Some m\<rparr>) current (Some days)) = Inr ?ps"
    by (rule spec)
  then have again: "fst (predict_aqi_f64 (snd (predict_aqi_f64 self current (Some days))) current (Some days))
               = Inr ?ps"
    unfolding run snd_conv .
  from run len range clipped elems stale again show ?thesis by blast
qed

theorem C7_projection_amended_witness:
  "\<exists>ps. fst (predict_aqi_f64 \<lparr>growth_rate = 1 / 2, model = None\<rparr> (- 480) (Some 3)) = Inr ps
      \<and> length ps = 3
      \<and> (\<exists>r. ps ! 0 = Fin r \<and> 0 \<le> r \<and> r \<le> 500)"
proof -
  let ?self = "\<lparr>growth_rate = 1 / 2, model = None\<rparr>"
  have d: "(1::int) \<le> 3" by simp
  have r: "\<bar>growth_rate ?self\<bar> * real_of_int 3 \<le> 10 ^ 150" by simp
  have b: "\<bar>- 480 :: real\<bar> * (1 + \<bar>growth_rate ?self\<bar> * real_of_int 3) * real_of_int 3 \<le> 10 ^ 150"
    by simp
  have dmax: "(3::int) \<le> 10 ^ 6" by simp
  from C7_projection_amended [OF d dmax r b] obtain ps m where
    ps: "predict_aqi_f64 ?self (- 480) (Some 3) = (Inr ps, ?self\<lparr>model := Some m\<rparr>)"
    "length ps = nat 3"
    "\<forall>v \<in> set ps. \<exists>r. v = Fin r \<and> 0 \<le> r \<and> r \<le> 500"
    by blast
  from ps(2) have "ps ! 0 \<in> set ps" by simp
  with ps(3) have "\<exists>r. ps ! 0 = Fin r \<and> 0 \<le> r \<and> r \<le> 500" by blast
  with ps(1,2) show ?thesis by simp
qed

section \<open>One city\<close>

lemma get_city_aqi_info_error:
  assumes "fst (fetch_aqi self city w) = Inl e"
  shows "get_city_aqi_info self city w = (Error (capitalize city) (str e), snd (fetch_aqi self city w))"
proof (cases "fetch_aqi self city w")
  case (Pair fetched w1)
  with assms show ?thesis
    by (simp add: get_city_aqi_info_def city_info_try_def)
qed

lemma get_city_aqi_info_world: "snd (get_city_aqi_info self city w) = snd (fetch_aqi self city w)"
  by (simp add: get_city_aqi_info_def split: prod.split sum.split)

lemma city_info_try_success:
  "\<exists>category color preds psummary.
     city_info_try pr city (Inr v) = Inr (Success (capitalize city) v category color preds psummary)
     \<and> (category, color) = get_aqi_category v
     \<and> predict_aqi pr v None = Inr preds
     \<and> get_prediction_summary pr v None = Inr psummary"
proof -
  obtain category color where cat: "get_aqi_category v = (category, color)"
    by (cases "get_aqi_category v")
  have p: "predict_aqi pr v None = Inr (clip (training_signal v (growth_rate pr) 7) 0 500)"
    by (simp add: predict_aqi_default predict_aqi_affine)
  obtain psummary where s: "get_prediction_summary pr v None = Inr psummary"
    by (simp add: summary_default summary_eq Let_def)
  show ?thesis
    by (simp add: city_info_try_def cat p s)
qed

lemma get_city_aqi_info_success:
  assumes "fst (fetch_aqi self city w) = Inr v"
  shows "\<exists>category color preds psummary.
           get_city_aqi_info self city w =
             (Success (capitalize city) v category color preds psummary, snd (fetch_aqi self city w))"
proof (cases "fetch_aqi self city w")
  case (Pair fetched w1)
  with assms have f: "fetched = Inr v" by simp
  from city_info_try_success [of "predictor self" city v]
  obtain category color preds psummary where
    "city_info_try (predictor self) city (Inr v) = Inr (Success (capitalize city) v category color preds psummary)"
    by blast
  then show ?thesis
    using Pair f by (simp add: get_city_aqi_info_def)
qed

section \<open>The loop over the cities\<close>

lemma cities_loop_eq:
  "cities_loop self cs (rep, valid, w) =
     (rep\<lparr>cities := foldl (\<lambda>d (k, v). dict_set d k v) (cities rep) (fst (process_in_order self cs w)),
          summary := (summary rep)
            \<lparr>successful_fetches := successful_fetches (summary rep) + length (successes (fst (process_in_order self cs w))),
             failed_fetches := failed_fetches (summary rep) + length (failures (fst (process_in_order self cs w)))\<rparr>\<rparr>,
      valid @ successes (fst (process_in_order self cs w)),
      snd (process_in_order self cs w))"
proof (induction cs arbitrary: rep valid w)
  case Nil
  show ?case by simp
next
  case (Cons city rest)
  obtain info w1 where step: "get_city_aqi_info self city w = (info, w1)"
    by (cases "get_city_aqi_info self city w")
  obtain infos w2 where tail: "process_in_order self rest w1 = (infos, w2)"
    by (cases "process_in_order self rest w1")
  show ?case
  proof (cases info)
    case (Success c aqi category color preds psummary)
    then show ?thesis
      using step tail by (simp add: Cons.IH Let_def)
  next
    case (Error c err)
    then show ?thesis
      using step tail by (simp add: Cons.IH Let_def)
  qed
qed

lemma process_in_order_keys: "map fst (fst (process_in_order self cs w)) = cs"
proof (induction cs arbitrary: w)
  case Nil
  show ?case by simp
next
  case (Cons city rest)
  obtain info w1 where step: "get_city_aqi_info self city w = (info, w1)"
    by (cases "get_city_aqi_info self city w")
  obtain infos w2 where tail: "process_in_order self rest w1 = (infos, w2)"
    by (cases "process_in_order self rest w1")
  from Cons.IH [of w1] tail have "map fst infos = rest" by simp
  with step tail show ?case by simp
qed

lemma successes_failures_length: "length (successes infos) + length (failures infos) = length infos"
  by (induction infos rule: successes.induct) simp_all

lemma process_in_order_Cons:
  "process_in_order self (city # rest) w =
     ((city, fst (get_city_aqi_info self city w)) # fst (process_in_order self rest (snd (fetch_aqi self city w))),
      snd (process_in_order self rest (snd (fetch_aqi self city w))))"
proof -
  obtain info w1 where g: "get_city_aqi_info self city w = (info, w1)"
    by (cases "get_city_aqi_info self city w")
  with get_city_aqi_info_world [of self city w] have w1: "w1 = snd (fetch_aqi self city w)" by simp
  show ?thesis using g w1 by (simp split: prod.split)
qed

lemma successes_step:
  "successes ((city, fst (get_city_aqi_info self city w)) # infos) =
     (case fst (fetch_aqi self city w) of
        Inl e \<Rightarrow> successes infos
      | Inr v \<Rightarrow> (city, v) # successes infos)"
proof (cases "fst (fetch_aqi self city w)")
  case (Inl e)
  then show ?thesis by (simp add: get_city_aqi_info_error)
next
  case (Inr v)
  from get_city_aqi_info_success [OF Inr] obtain category color preds psummary where
    "get_city_aqi_info self city w =
       (Success (capitalize city) v category color preds psummary, snd (fetch_aqi self city w))"
    by blast
  with Inr show ?thesis by simp
qed

lemma failures_step:
  "failures ((city, fst (get_city_aqi_info self city w)) # infos) =
     (case fst (fetch_aqi self city w) of
        Inl e \<Rightarrow> (city, str e) # failures infos
      | Inr v \<Rightarrow> failures infos)"
proof (cases "fst (fetch_aqi self city w)")
  case (Inl e)
  then show ?thesis by (simp add: get_city_aqi_info_error)
next
  case (Inr v)
  from get_city_aqi_info_success [OF Inr] obtain category color preds psummary where
    "get_city_aqi_info self city w =
       (Success (capitalize city) v category color preds psummary, snd (fetch_aqi self city w))"
    by blast
  with Inr show ?thesis by simp
qed

lemma all_fail_successes:
  assumes "\<forall>c \<in> set cs. \<forall>w0. \<exists>e. fst (fetch_aqi self c w0) = Inl e"
  shows "successes (fst (process_in_order self cs w)) = []"
  using assms
proof (induction cs arbitrary: w)
  case Nil
  show ?case by simp
next
  case (Cons city rest)
  from Cons.prems have "\<exists>e. fst (fetch_aqi self city w) = Inl e" by simp
  then obtain e where e: "fst (fetch_aqi self city w) = Inl e" ..
  obtain infos w2 where tail: "process_in_order self rest (snd (fetch_aqi self city w)) = (infos, w2)"
    by (cases "process_in_order self rest (snd (fetch_aqi self city w))")
  from Cons.IH [of "snd (fetch_aqi self city w)"] Cons.prems tail
  have "successes infos = []" by simp
  then show ?case
    using tail by (simp add: get_city_aqi_info_error [OF e])
qed

lemma report_eq:
  "get_multiple_cities_report self cs w =
    (\<lparr>cities = dict_of (fst (process_in_order self cs w)),
      summary =
        \<lparr>total_cities = length cs,
         successful_fetches = length (successes (fst (process_in_order self cs w))),
         failed_fetches = length (failures (fst (process_in_order self cs w))),
         average_aqi =
           (if successes (fst (process_in_order self cs w)) \<noteq> []
            then sum_list (map snd (successes (fst (process_in_order self cs w))))
                   / real (length (successes (fst (process_in_order self cs w))))
            else 0),
         highest_aqi_city =
           (if successes (fst (process_in_order self cs w)) \<noteq> []
            then Some (max_py snd (successes (fst (process_in_order self cs w)))) else None),
         lowest_aqi_city =
           (if successes (fst (process_in_order self cs w)) \<noteq> []
            then Some (min_py snd (successes (fst (process_in_order self cs w)))) else None)\<rparr>\<rparr>,
     snd (process_in_order self cs w))"
  by (simp add: get_multiple_cities_report_def cities_loop_eq dict_of_def Let_def)

lemma dict_set_fresh: "k \<notin> fst ` set d \<Longrightarrow> dict_set d k v = d @ [(k, v)]"
  by (induction d k v rule: dict_set.induct) auto

lemma dict_set_keys: "fst ` set (dict_set d k v) = insert k (fst ` set d)"
  by (induction d k v rule: dict_set.induct) auto

lemma foldl_dict_set_distinct:
  "distinct (map fst d @ map fst kvs) \<Longrightarrow> foldl (\<lambda>d (k, v). dict_set d k v) d kvs = d @ kvs"
proof (induction kvs arbitrary: d)
  case Nil
  show ?case by simp
next
  case (Cons kv kvs)
  obtain k v where kv: "kv = (k, v)" by (cases kv)
  from Cons.prems kv have fresh: "k \<notin> fst ` set d" by auto
  from Cons.prems kv have "distinct (map fst (d @ [(k, v)]) @ map fst kvs)" by auto
  from Cons.IH [OF this] show ?case
    using kv fresh by (simp add: dict_set_fresh)
qed

lemma foldl_dict_set_keys:
  "fst ` set (foldl (\<lambda>d (k, v). dict_set d k v) d kvs) = fst ` set d \<union> fst ` set kvs"
proof (induction kvs arbitrary: d)
  case Nil
  show ?case by simp
next
  case (Cons kv kvs)
  obtain k v where kv: "kv = (k, v)" by (cases kv)
  show ?case using kv by (simp add: Cons.IH dict_set_keys)
qed

lemma dict_of_distinct: "distinct (map fst kvs) \<Longrightarrow> dict_of kvs = kvs"
  using foldl_dict_set_distinct [of "[]" kvs] by (simp add: dict_of_def)

lemma dict_of_keys: "fst ` set (dict_of kvs) = fst ` set kvs"
  using foldl_dict_set_keys [of "[]" kvs] by (simp add: dict_of_def)

section \<open>The first extreme wins\<close>

lemma max_from_first:
  "\<exists>i \<le> length xs. max_from key b xs = (b # xs) ! i
      \<and> (\<forall>p \<in> set (b # xs). key p \<le> key ((b # xs) ! i))
      \<and> (\<forall>p \<in> set (take i (b # xs)). key p < key ((b # xs) ! i))"
proof (induction xs arbitrary: b)
  case Nil
  show ?case by simp
next
  case (Cons x xs)
  show ?case
  proof (cases "key x > key b")
    case True
    from Cons.IH [of x] obtain i where i: "i \<le> length xs" "max_from key x xs = (x # xs) ! i"
      "\<forall>p \<in> set (x # xs). key p \<le> key ((x # xs) ! i)"
      "\<forall>p \<in> set (take i (x # xs)). key p < key ((x # xs) ! i)" by blast
    from i(3) have xr: "key x \<le> key ((x # xs) ! i)" by simp
    have "Suc i \<le> length (x # xs)" using i(1) by simp
    moreover have "max_from key b (x # xs) = (b # x # xs) ! Suc i" using True i(2) by simp
    moreover have "\<forall>p \<in> set (b # x # xs). key p \<le> key ((b # x # xs) ! Suc i)"
      using i(3) xr True by auto
    moreover have "\<forall>p \<in> set (take (Suc i) (b # x # xs)). key p < key ((b # x # xs) ! Suc i)"
      using i(4) xr True by auto
    ultimately show ?thesis by blast
  next
    case False
    from Cons.IH [of b] obtain i where i: "i \<le> length xs" "max_from key b xs = (b # xs) ! i"
      "\<forall>p \<in> set (b # xs). key p \<le> key ((b # xs) ! i)"
      "\<forall>p \<in> set (take i (b # xs)). key p < key ((b # xs) ! i)" by blast
    from i(3) have br: "key b \<le> key ((b # xs) ! i)" by simp
    show ?thesis
    proof (cases i)
      case 0
      have "0 \<le> length (x # xs)" by simp
      moreover have "max_from key b (x # xs) = (b # x # xs) ! 0" using False i(2) 0 by simp
      moreover have "\<forall>p \<in> set (b # x # xs). key p \<le> key ((b # x # xs) ! 0)"
        using i(3) False 0 by auto
      moreover have "\<forall>p \<in> set (take 0 (b # x # xs)). key p < key ((b # x # xs) ! 0)" by simp
      ultimately show ?thesis by blast
    next
      case (Suc k)
      from i(4) Suc have bk: "key b < key (xs ! k)" by simp
      have "Suc (Suc k) \<le> length (x # xs)" using i(1) Suc by simp
      moreover have "max_from key b (x # xs) = (b # x # xs) ! Suc (Suc k)" using False i(2) Suc by simp
      moreover have "\<forall>p \<in> set (b # x # xs). key p \<le> key ((b # x # xs) ! Suc (Suc k))"
        using i(3) False Suc bk by auto
      moreover have "\<forall>p \<in> set (take (Suc (Suc k)) (b # x # xs)). key p < key ((b # x # xs) ! Suc (Suc k))"
        using i(4) False Suc bk by auto
      ultimately show ?thesis by blast
    qed
  qed
qed

lemma min_from_first:
  "\<exists>i \<le> length xs. min_from key b xs = (b # xs) ! i
      \<and> (\<forall>p \<in> set (b # xs). key ((b # xs) ! i) \<le> key p)
      \<and> (\<forall>p \<in> set (take i (b # xs)). key ((b # xs) ! i) < key p)"
proof (induction xs arbitrary: b)
  case Nil
  show ?case by simp
next
  case (Cons x xs)
  show ?case
  proof (cases "key x < key b")
    case True
    from Cons.IH [of x] obtain i where i: "i \<le> length xs" "min_from key x xs = (x # xs) ! i"
      "\<forall>p \<in> set (x # xs). key ((x # xs) ! i) \<le> key p"
      "\<forall>p \<in> set (take i (x # xs)). key ((x # xs) ! i) < key p" by blast
    from i(3) have xr: "key ((x # xs) ! i) \<le> key x" by simp
    have "Suc i \<le> length (x # xs)" using i(1) by simp
    moreover have "min_from key b (x # xs) = (b # x # xs) ! Suc i" using True i(2) by simp
    moreover have "\<forall>p \<in> set (b # x # xs). key ((b # x # xs) ! Suc i) \<le> key p"
      using i(3) xr True by auto
    moreover have "\<forall>p \<in> set (take (Suc i) (b # x # xs)). key ((b # x # xs) ! Suc i) < key p"
      using i(4) xr True by auto
    ultimately show ?thesis by blast
  next
    case False
    from Cons.IH [of b] obtain i where i: "i \<le> length xs" "min_from key b xs = (b # xs) ! i"
      "\<forall>p \<in> set (b # xs). key ((b # xs) ! i) \<le> key p"
      "\<forall>p \<in> set (take i (b # xs)). key ((b # xs) ! i) < key p" by blast
    show ?thesis
    proof (cases i)
      case 0
      have "0 \<le> length (x # xs)" by simp
      moreover have "min_from key b (x # xs) = (b # x # xs) ! 0" using False i(2) 0 by simp
      moreover have "\<forall>p \<in> set (b # x # xs). key ((b # x # xs) ! 0) \<le> key p"
        using i(3) False 0 by auto
      moreover have "\<forall>p \<in> set (take 0 (b # x # xs)). key ((b # x # xs) ! 0) < key p" by simp
      ultimately show ?thesis by blast
    next
      case (Suc k)
      from i(4) Suc have bk: "key (xs ! k) < key b" by simp
      have "Suc (Suc k) \<le> length (x # xs)" using i(1) Suc by simp
      moreover have "min_from key b (x # xs) = (b # x # xs) ! Suc (Suc k)" using False i(2) Suc by simp
      moreover have "\<forall>p \<in> set (b # x # xs). key ((b # x # xs) ! Suc (Suc k)) \<le> key p"
        using i(3) False Suc bk by auto
      moreover have "\<forall>p \<in> set (take (Suc (Suc k)) (b # x # xs)). key ((b # x # xs) ! Suc (Suc k)) < key p"
        using i(4) False Suc bk by auto
      ultimately show ?thesis by blast
    qed
  qed
qed

lemma max_py_first:
  assumes "xs \<noteq> []"
  shows "first_extreme (\<lambda>a b. a > b) xs (max_py snd xs)"
proof -
  obtain b rest where xs: "xs = b # rest" using assms by (cases xs) auto
  from max_from_first [of rest snd b] obtain i where i: "i \<le> length rest"
    "max_from snd b rest = (b # rest) ! i"
    "\<forall>p \<in> set (b # rest). snd p \<le> snd ((b # rest) ! i)"
    "\<forall>p \<in> set (take i (b # rest)). snd p < snd ((b # rest) ! i)" by blast
  have r: "max_py snd xs = xs ! i" using i(2) xs by (simp add: max_py_def)
  show ?thesis
    unfolding first_extreme_def not_less r
  proof (intro exI [of _ i] conjI)
    show "i < length xs" using i(1) xs by simp
    show "xs ! i = xs ! i" ..
    show "\<forall>p \<in> set xs. snd p \<le> snd (xs ! i)" using i(3) unfolding xs .
    show "\<forall>p \<in> set (take i xs). snd p < snd (xs ! i)" using i(4) unfolding xs .
  qed
qed

lemma min_py_first:
  assumes "xs \<noteq> []"
  shows "first_extreme (\<lambda>a b. a < b) xs (min_py snd xs)"
proof -
  obtain b rest where xs: "xs = b # rest" using assms by (cases xs) auto
  from min_from_first [of rest snd b] obtain i where i: "i \<le> length rest"
    "min_from snd b rest = (b # rest) ! i"
    "\<forall>p \<in> set (b # rest). snd ((b # rest) ! i) \<le> snd p"
    "\<forall>p \<in> set (take i (b # rest)). snd ((b # rest) ! i) < snd p" by blast
  have r: "min_py snd xs = xs ! i" using i(2) xs by (simp add: min_py_def)
  show ?thesis
    unfolding first_extreme_def not_less r
  proof (intro exI [of _ i] conjI)
    show "i < length xs" using i(1) xs by simp
    show "xs ! i = xs ! i" ..
    show "\<forall>p \<in> set xs. snd (xs ! i) \<le> snd p" using i(3) unfolding xs .
    show "\<forall>p \<in> set (take i xs). snd (xs ! i) < snd p" using i(4) unfolding xs .
  qed
qed

lemmas eval_simps = process_in_order_Cons successes_step failures_step AQIApp_init_def
  report_eq dict_of_def max_py_def min_py_def

lemmas capitalize_eval = upper_char_def lower_char_def ascii_lowercase_def ascii_uppercase_def

section \<open>The report of one city\<close>

text \<open>
  C3. For every city name and every fetch capability, in every world: when the fetch
  raises an exception \<open>e\<close>, \<^verbatim>\<open>get_city_aqi_info\<close> returns the error report with the
  capitalized city name and the description \<^verbatim>\<open>str(e)\<close>, in the world the fetch left. The
  result is a report whatever the fetch does: the function has no exceptional result, so
  the exception does not reach the caller.
\<close>

theorem C3_fetch_error_caught:
  assumes "fst (fetch_aqi self city w) = Inl e"
  shows "get_city_aqi_info self city w
           = (Error (capitalize city) (str e), snd (fetch_aqi self city w))
         \<and> status (fst (get_city_aqi_info self city w)) = ''error''"
  using get_city_aqi_info_error [OF assms] by simp

theorem C3_fetch_error_caught_witness:
  "fst (fetch_aqi (AQIApp_init fetch_failing) ''new DELHI'' 0)
     = Inl (Exception ''Failed to fetch AQI for new DELHI'')
   \<and> get_city_aqi_info (AQIApp_init fetch_failing) ''new DELHI'' 0
     = (Error ''New delhi'' ''Failed to fetch AQI for new DELHI'', 1)"
proof -
  have f: "fst (fetch_aqi (AQIApp_init fetch_failing) ''new DELHI'' 0)
     = Inl (Exception ''Failed to fetch AQI for new DELHI'')"
    by (simp add: AQIApp_init_def fetch_failing_def)
  from C3_fetch_error_caught [OF f] f show ?thesis
    by (simp add: AQIApp_init_def fetch_failing_def capitalize_eval)
qed

section \<open>The report of several cities\<close>

lemma scenario_A40_C300:
  "successful_fetches (summary (fst (get_multiple_cities_report (AQIApp_init fetch_A40_C300) [''A'', ''B'', ''C''] 0))) = 2
   \<and> failed_fetches (summary (fst (get_multiple_cities_report (AQIApp_init fetch_A40_C300) [''A'', ''B'', ''C''] 0))) = 1
   \<and> average_aqi (summary (fst (get_multiple_cities_report (AQIApp_init fetch_A40_C300) [''A'', ''B'', ''C''] 0))) = 170
   \<and> highest_aqi_city (summary (fst (get_multiple_cities_report (AQIApp_init fetch_A40_C300) [''A'', ''B'', ''C''] 0))) = Some (''C'', 300)
   \<and> lowest_aqi_city (summary (fst (get_multiple_cities_report (AQIApp_init fetch_A40_C300) [''A'', ''B'', ''C''] 0))) = Some (''A'', 40)
   \<and> map fst (cities (fst (get_multiple_cities_report (AQIApp_init fetch_A40_C300) [''A'', ''B'', ''C''] 0))) = [''A'', ''B'', ''C'']"
  by (simp del: process_in_order.simps(2) add: eval_simps fetch_A40_C300_def)

lemma scenario_A40_C300_B:
  "map_of (cities (fst (get_multiple_cities_report (AQIApp_init fetch_A40_C300) [''A'', ''B'', ''C''] 0))) ''B''
        = Some (Error ''B'' ''Failed to fetch AQI for B'')"
proof -
  have "fst (fetch_aqi (AQIApp_init fetch_A40_C300) ''B'' 1) = Inl (Exception ''Failed to fetch AQI for B'')"
    by (simp add: AQIApp_init_def fetch_A40_C300_def)
  from get_city_aqi_info_error [OF this]
  have "fst (get_city_aqi_info (AQIApp_init fetch_A40_C300) ''B'' 1) = Error ''B'' ''Failed to fetch AQI for B''"
    by (simp add: capitalize_eval)
  then show ?thesis
    by (simp del: process_in_order.simps(2) add: eval_simps fetch_A40_C300_def)
qed

lemma scenario_failing:
  "successful_fetches (summary (fst (get_multiple_cities_report (AQIApp_init fetch_failing) [''A'', ''B'', ''C''] 0))) = 0
   \<and> failed_fetches (summary (fst (get_multiple_cities_report (AQIApp_init fetch_failing) [''A'', ''B'', ''C''] 0))) = 3
   \<and> average_aqi (summary (fst (get_multiple_cities_report (AQIApp_init fetch_failing) [''A'', ''B'', ''C''] 0))) = 0
   \<and> highest_aqi_city (summary (fst (get_multiple_cities_report (AQIApp_init fetch_failing) [''A'', ''B'', ''C''] 0))) = None
   \<and> lowest_aqi_city (summary (fst (get_multiple_cities_report (AQIApp_init fetch_failing) [''A'', ''B'', ''C''] 0))) = None"
  by (simp del: process_in_order.simps(2) add: eval_simps fetch_failing_def)

lemma scenario_ties:
  "successes (fst (process_in_order (AQIApp_init fetch_name_length) [''ab'', ''c'', [], ''de'', ''f''] 0))
      = [(''ab'', 2), (''c'', 1), (''de'', 2), (''f'', 1)]
   \<and> highest_aqi_city (summary (fst (get_multiple_cities_report (AQIApp_init fetch_name_length) [''ab'', ''c'', [], ''de'', ''f''] 0))) = Some (''ab'', 2)
   \<and> lowest_aqi_city (summary (fst (get_multiple_cities_report (AQIApp_init fetch_name_length) [''ab'', ''c'', [], ''de'', ''f''] 0))) = Some (''c'', 1)"
  by (simp del: process_in_order.simps(2) add: eval_simps fetch_name_length_def)

text \<open>
  C4. For every list of cities, every application and every world, the report is built from
  the cities processed one after the other in input order, a failed city not stopping the
  next ones: the world after the report is the world after that sequence, the dictionary
  of the cities is the one the sequence of results builds (every requested city is a key,
  and with distinct names the entries are the results in input order), the two counters
  count the successful and the failed results and add up to the number of cities. When
  some city succeeded, the average is the sum of the successful current values over their
  number, and the highest and the lowest entry are the first successful entries with the
  greatest and the least value. In the scenario where A answers 40, B fails and C answers
  300 the report has 2 successes, 1 failure, average 170, highest C with 300, lowest A with
  40, and the entry of B is an error report.
\<close>

theorem C4_aggregate_report:
  "(let infos = fst (process_in_order self cs w);
        valid = successes infos;
        rep = fst (get_multiple_cities_report self cs w)
    in map fst infos = cs
     \<and> snd (get_multiple_cities_report self cs w) = snd (process_in_order self cs w)
     \<and> cities rep = dict_of infos
     \<and> fst ` set (cities rep) = set cs
     \<and> (distinct cs \<longrightarrow> cities rep = infos)
     \<and> total_cities (summary rep) = length cs
     \<and> successful_fetches (summary rep) = length valid
     \<and> failed_fetches (summary rep) = length (failures infos)
     \<and> successful_fetches (summary rep) + failed_fetches (summary rep) = length cs
     \<and> (valid \<noteq> [] \<longrightarrow>
          average_aqi (summary rep) = sum_list (map snd valid) / real (length valid)
          \<and> (\<exists>h. highest_aqi_city (summary rep) = Some h \<and> first_extreme (\<lambda>a b. a > b) valid h)
          \<and> (\<exists>l. lowest_aqi_city (summary rep) = Some l \<and> first_extreme (\<lambda>a b. a < b) valid l)))
   \<and> (let rep = fst (get_multiple_cities_report (AQIApp_init fetch_A40_C300) [''A'', ''B'', ''C''] 0)
      in successful_fetches (summary rep) = 2
       \<and> failed_fetches (summary rep) = 1
       \<and> average_aqi (summary rep) = 170
       \<and> highest_aqi_city (summary rep) = Some (''C'', 300)
       \<and> lowest_aqi_city (summary rep) = Some (''A'', 40)
       \<and> map fst (cities rep) = [''A'', ''B'', ''C'']
       \<and> map_of (cities rep) ''B'' = Some (Error ''B'' ''Failed to fetch AQI for B''))"
proof -
  let ?infos = "fst (process_in_order self cs w)"
  let ?valid = "successes ?infos"
  let ?rep = "fst (get_multiple_cities_report self cs w)"
  have keys: "map fst ?infos = cs"
    by (rule process_in_order_keys)
  have world: "snd (get_multiple_cities_report self cs w) = snd (process_in_order self cs w)"
    by (simp add: report_eq)
  have dict: "cities ?rep = dict_of ?infos"
    by (simp add: report_eq)
  have "fst ` set (dict_of ?infos) = set (map fst ?infos)"
    by (simp add: dict_of_keys)
  then have present: "fst ` set (cities ?rep) = set cs"
    unfolding dict keys .
  have ordered: "distinct cs \<longrightarrow> cities ?rep = ?infos"
    unfolding dict using keys dict_of_distinct [of ?infos] by simp
  have total: "total_cities (summary ?rep) = length cs"
    by (simp add: report_eq)
  have succ: "successful_fetches (summary ?rep) = length ?valid"
    by (simp add: report_eq)
  have fail: "failed_fetches (summary ?rep) = length (failures ?infos)"
    by (simp add: report_eq)
  have "length ?infos = length cs"
    using keys by (metis length_map)
  then have both: "successful_fetches (summary ?rep) + failed_fetches (summary ?rep) = length cs"
    unfolding succ fail using successes_failures_length [of ?infos] by simp
  have stats: "?valid \<noteq> [] \<longrightarrow>
          average_aqi (summary ?rep) = sum_list (map snd ?valid) / real (length ?valid)
          \<and> (\<exists>h. highest_aqi_city (summary ?rep) = Some h \<and> first_extreme (\<lambda>a b. a > b) ?valid h)
          \<and> (\<exists>l. lowest_aqi_city (summary ?rep) = Some l \<and> first_extreme (\<lambda>a b. a < b) ?valid l)"
  proof
    assume ne: "?valid \<noteq> []"
    have avg: "average_aqi (summary ?rep) = sum_list (map snd ?valid) / real (length ?valid)"
      using ne by (simp add: report_eq)
    have "highest_aqi_city (summary ?rep) = Some (max_py snd ?valid)"
      using ne by (simp add: report_eq)
    with max_py_first [OF ne]
    have hi: "\<exists>h. highest_aqi_city (summary ?rep) = Some h \<and> first_extreme (\<lambda>a b. a > b) ?valid h"
      by blast
    have "lowest_aqi_city (summary ?rep) = Some (min_py snd ?valid)"
      using ne by (simp add: report_eq)
    with min_py_first [OF ne]
    have lo: "\<exists>l. lowest_aqi_city (summary ?rep) = Some l \<and> first_extreme (\<lambda>a b. a < b) ?valid l"
      by blast
    from avg hi lo
    show "average_aqi (summary ?rep) = sum_list (map snd ?valid) / real (length ?valid)
          \<and> (\<exists>h. highest_aqi_city (summary ?rep) = Some h \<and> first_extreme (\<lambda>a b. a > b) ?valid h)
          \<and> (\<exists>l. lowest_aqi_city (summary ?rep) = Some l \<and> first_extreme (\<lambda>a b. a < b) ?valid l)"
      by (intro conjI)
  qed
  have general: "map fst ?infos = cs
     \<and> snd (get_multiple_cities_report self cs w) = snd (process_in_order self cs w)
     \<and> cities ?rep = dict_of ?infos
     \<and> fst ` set (cities ?rep) = set cs
     \<and> (distinct cs \<longrightarrow> cities ?rep = ?infos)
     \<and> total_cities (summary ?rep) = length cs
     \<and> successful_fetches (summary ?rep) = length ?valid
     \<and> failed_fetches (summary ?rep) = length (failures ?infos)
     \<and> successful_fetches (summary ?rep) + failed_fetches (summary ?rep) = length cs
     \<and> (?valid \<noteq> [] \<longrightarrow>
          average_aqi (summary ?rep) = sum_list (map snd ?valid) / real (length ?valid)
          \<and> (\<exists>h. highest_aqi_city (summary ?rep) = Some h \<and> first_extreme (\<lambda>a b. a > b) ?valid h)
          \<and> (\<exists>l. lowest_aqi_city (summary ?rep) = Some l \<and> first_extreme (\<lambda>a b. a < b) ?valid l))"
    using keys world dict present ordered total succ fail both stats by (intro conjI)
  have scenario:
    "successful_fetches (summary (fst (get_multiple_cities_report (AQIApp_init fetch_A40_C300) [''A'', ''B'', ''C''] 0))) = 2
     \<and> failed_fetches (summary (fst (get_multiple_cities_report (AQIApp_init fetch_A40_C300) [''A'', ''B'', ''C''] 0))) = 1
     \<and> average_aqi (summary (fst (get_multiple_cities_report (AQIApp_init fetch_A40_C300) [''A'', ''B'', ''C''] 0))) = 170
     \<and> highest_aqi_city (summary (fst (get_multiple_cities_report (AQIApp_init fetch_A40_C300) [''A'', ''B'', ''C''] 0))) = Some (''C'', 300)
     \<and> lowest_aqi_city (summary (fst (get_multiple_cities_report (AQIApp_init fetch_A40_C300) [''A'', ''B'', ''C''] 0))) = Some (''A'', 40)
     \<and> map fst (cities (fst (get_multiple_cities_report (AQIApp_init fetch_A40_C300) [''A'', ''B'', ''C''] 0))) = [''A'', ''B'', ''C'']
     \<and> map_of (cities (fst (get_multiple_cities_report (AQIApp_init fetch_A40_C300) [''A'', ''B'', ''C''] 0))) ''B''
          = Some (Error ''B'' ''Failed to fetch AQI for B'')"
    using scenario_A40_C300 scenario_A40_C300_B by blast
  from general scenario show ?thesis
    unfolding Let_def by (rule conjI)
qed

theorem C4_aggregate_report_witness:
  "distinct [''ab'', ''c'', [], ''de'', ''f'']
   \<and> successes (fst (process_in_order (AQIApp_init fetch_name_length) [''ab'', ''c'', [], ''de'', ''f''] 0))
       = [(''ab'', 2), (''c'', 1), (''de'', 2), (''f'', 1)]
   \<and> average_aqi (summary (fst (get_multiple_cities_report (AQIApp_init fetch_name_length)
         [''ab'', ''c'', [], ''de'', ''f''] 0))) = 3 / 2
   \<and> first_extreme (\<lambda>a b. a > b) [(''ab'', 2), (''c'', 1), (''de'', 2), (''f'', 1)] (''ab'', 2)
   \<and> first_extreme (\<lambda>a b. a < b) [(''ab'', 2), (''c'', 1), (''de'', 2), (''f'', 1)] (''c'', 1)
   \<and> successful_fetches (summary (fst (get_multiple_cities_report (AQIApp_init fetch_name_length)
         [''ab'', ''c'', [], ''de'', ''f''] 0))) = 4
   \<and> failed_fetches (summary (fst (get_multiple_cities_report (AQIApp_init fetch_name_length)
         [''ab'', ''c'', [], ''de'', ''f''] 0))) = 1
   \<and> map fst (cities (fst (get_multiple_cities_report (AQIApp_init fetch_name_length)
         [''ab'', ''c'', [], ''de'', ''f''] 0))) = [''ab'', ''c'', [], ''de'', ''f'']"
proof -
  let ?app = "AQIApp_init fetch_name_length"
  let ?cs = "[''ab'', ''c'', [], ''de'', ''f'']"
  let ?infos = "fst (process_in_order ?app ?cs 0)"
  let ?rep = "fst (get_multiple_cities_report ?app ?cs 0)"
  let ?valid = "[(''ab'', 2), (''c'', 1), (''de'', 2), (''f'', 1)] :: (string \<times> real) list"
  note T = C4_aggregate_report [of ?app ?cs 0, unfolded Let_def, THEN conjunct1]
  have d: "distinct ?cs" by simp
  have v: "successes ?infos = ?valid"
    and hi: "highest_aqi_city (summary ?rep) = Some (''ab'', 2)"
    and lo: "lowest_aqi_city (summary ?rep) = Some (''c'', 1)"
    using scenario_ties by blast+
  from T have keys: "map fst ?infos = ?cs" by (rule conjunct1)
  from T d have ordered: "cities ?rep = ?infos" by blast
  from T have succ: "successful_fetches (summary ?rep) = length (successes ?infos)" by blast
  from T have both: "successful_fetches (summary ?rep) + failed_fetches (summary ?rep) = length ?cs"
    by blast
  from T have stats: "successes ?infos \<noteq> [] \<longrightarrow>
          average_aqi (summary ?rep) = sum_list (map snd (successes ?infos)) / real (length (successes ?infos))
          \<and> (\<exists>h. highest_aqi_city (summary ?rep) = Some h \<and> first_extreme (\<lambda>a b. a > b) (successes ?infos) h)
          \<and> (\<exists>l. lowest_aqi_city (summary ?rep) = Some l \<and> first_extreme (\<lambda>a b. a < b) (successes ?infos) l)"
    by blast
  from stats have avg: "average_aqi (summary ?rep) = 3 / 2"
    unfolding v by simp
  from stats have fh: "first_extreme (\<lambda>a b. a > b) ?valid (''ab'', 2)"
    unfolding v hi by simp
  from stats have fl: "first_extreme (\<lambda>a b. a < b) ?valid (''c'', 1)"
    unfolding v lo by simp
  from succ have s4: "successful_fetches (summary ?rep) = 4"
    unfolding v by simp
  from both s4 have f1: "failed_fetches (summary ?rep) = 1" by simp
  from ordered keys have ks: "map fst (cities ?rep) = ?cs" by simp
  from d v avg fh fl s4 f1 ks show ?thesis by (intro conjI)
qed

text \<open>
  C9. For every list of cities: when no city succeeded, the average of the report is 0 and
  its highest and lowest entries are \<^verbatim>\<open>None\<close>, and every city is counted as failed; this is
  so whenever the fetch fails for every city of the list. With three failing cities the
  report counts 0 successes and 3 failures.
\<close>

theorem C9_no_success:
  "(let rep = fst (get_multiple_cities_report self cs w)
    in (successful_fetches (summary rep) = 0 \<longrightarrow>
          average_aqi (summary rep) = 0
          \<and> highest_aqi_city (summary rep) = None
          \<and> lowest_aqi_city (summary rep) = None
          \<and> failed_fetches (summary rep) = length cs)
     \<and> ((\<forall>c \<in> set cs. \<forall>w0. \<exists>e. fst (fetch_aqi self c w0) = Inl e) \<longrightarrow>
          successful_fetches (summary rep) = 0 \<and> failed_fetches (summary rep) = length cs))
   \<and> (let rep = fst (get_multiple_cities_report (AQIApp_init fetch_failing) [''A'', ''B'', ''C''] 0)
      in successful_fetches (summary rep) = 0
       \<and> failed_fetches (summary rep) = 3
       \<and> average_aqi (summary rep) = 0
       \<and> highest_aqi_city (summary rep) = None
       \<and> lowest_aqi_city (summary rep) = None)"
proof -
  let ?infos = "fst (process_in_order self cs w)"
  let ?rep = "fst (get_multiple_cities_report self cs w)"
  have len: "length ?infos = length cs"
    using process_in_order_keys [of self cs w] by (metis length_map)
  have none: "successful_fetches (summary ?rep) = 0 \<longrightarrow>
          average_aqi (summary ?rep) = 0
          \<and> highest_aqi_city (summary ?rep) = None
          \<and> lowest_aqi_city (summary ?rep) = None
          \<and> failed_fetches (summary ?rep) = length cs"
  proof
    assume "successful_fetches (summary ?rep) = 0"
    then have empty: "successes ?infos = []"
      by (simp add: report_eq)
    with successes_failures_length [of ?infos] len
    have "length (failures ?infos) = length cs" by simp
    with empty show "average_aqi (summary ?rep) = 0
          \<and> highest_aqi_city (summary ?rep) = None
          \<and> lowest_aqi_city (summary ?rep) = None
          \<and> failed_fetches (summary ?rep) = length cs"
      by (simp add: report_eq)
  qed
  have allfail: "(\<forall>c \<in> set cs. \<forall>w0. \<exists>e. fst (fetch_aqi self c w0) = Inl e) \<longrightarrow>
          successful_fetches (summary ?rep) = 0 \<and> failed_fetches (summary ?rep) = length cs"
  proof
    assume "\<forall>c \<in> set cs. \<forall>w0. \<exists>e. fst (fetch_aqi self c w0) = Inl e"
    then have empty: "successes ?infos = []"
      by (rule all_fail_successes)
    with successes_failures_length [of ?infos] len
    have "length (failures ?infos) = length cs" by simp
    with empty show "successful_fetches (summary ?rep) = 0 \<and> failed_fetches (summary ?rep) = length cs"
      by (simp add: report_eq)
  qed
  from none allfail have general:
    "(successful_fetches (summary ?rep) = 0 \<longrightarrow>
          average_aqi (summary ?rep) = 0
          \<and> highest_aqi_city (summary ?rep) = None
          \<and> lowest_aqi_city (summary ?rep) = None
          \<and> failed_fetches (summary ?rep) = length cs)
     \<and> ((\<forall>c \<in> set cs. \<forall>w0. \<exists>e. fst (fetch_aqi self c w0) = Inl e) \<longrightarrow>
          successful_fetches (summary ?rep) = 0 \<and> failed_fetches (summary ?rep) = length cs)"
    by (rule conjI)
  from general scenario_failing show ?thesis
    unfolding Let_def by (rule conjI)
qed

theorem C9_no_success_witness:
  "successful_fetches (summary (fst (get_multiple_cities_report (AQIApp_init fetch_name_length) [[], []] 0))) = 0
   \<and> failed_fetches (summary (fst (get_multiple_cities_report (AQIApp_init fetch_name_length) [[], []] 0))) = 2
   \<and> average_aqi (summary (fst (get_multiple_cities_report (AQIApp_init fetch_name_length) [[], []] 0))) = 0
   \<and> highest_aqi_city (summary (fst (get_multiple_cities_report (AQIApp_init fetch_name_length) [[], []] 0))) = None
   \<and> lowest_aqi_city (summary (fst (get_multiple_cities_report (AQIApp_init fetch_name_length) [[], []] 0))) = None"
proof -
  let ?app = "AQIApp_init fetch_name_length"
  let ?rep = "fst (get_multiple_cities_report ?app [[], []] 0)"
  note T = C9_no_success [of ?app "[[], []]" 0, unfolded Let_def, THEN conjunct1]
  have "\<forall>c \<in> set [[], []]. \<forall>w0. \<exists>e. fst (fetch_aqi ?app c w0) = Inl e"
    by (simp add: AQIApp_init_def fetch_name_length_def)
  with T have zero: "successful_fetches (summary ?rep) = 0" by blast
  with T have rest: "average_aqi (summary ?rep) = 0
          \<and> highest_aqi_city (summary ?rep) = None
          \<and> lowest_aqi_city (summary ?rep) = None
          \<and> failed_fetches (summary ?rep) = length [[] :: string, []]"
    by blast
  from zero rest show ?thesis by simp
qed

end
